theory Spec2Isabelle
  imports Complex_Main "HOL-Library.Char_ord" "HOL-Library.List_Lexorder"
begin

section \<open>Values shared by the task and message services\<close>

text \<open>
  Two kinds of strings occur. A string that the program makes itself (the rendering of
  an \<open>ObjectId\<close> or of a \<open>Date\<close>, the identifier of a socket, the description of an
  activity) consists of ASCII characters and is a \<^typ>\<open>string\<close>. A string that arrives
  in a request (a title, a tag, the content of a message, the name of a channel, an
  emoji, an identifier within a body) is any JavaScript string: it is the list of its
  UTF-16 code units, so that \<open>length\<close> is \<open>.length\<close> and the order of the lists is the
  default order of \<open>Array.prototype.sort\<close>. \<open>js\<close> writes such a string with ASCII
  characters.

  An \<open>ObjectId\<close> is carried as the string that \<open>toString()\<close> returns for it, 24
  lower-case hexadecimal digits. \<open>new Types.ObjectId(x)\<close> takes a string of 24
  hexadecimal digits of either case and throws on any other string (as the current
  driver does; older ones also took strings of 12 bytes). The identity of
  the authenticated user and the identifiers that a service receives as parameters of
  their own are \<open>ObjectId\<close>s; the identifiers within \<open>CreateTaskData\<close>,
  \<open>UpdateTaskData\<close> and \<open>SendMessageData\<close> are strings as they were sent.

  A \<open>Date\<close> is carried as its rendering by \<open>toISOString()\<close>
  (\<open>YYYY-MM-DDTHH:mm:ss.sssZ\<close>), so that \<open>toISOString()\<close> is the identity and the
  order of two dates is the order of their renderings. Every \<open>new Date()\<close> of one
  service call reads the same clock value \<open>now\<close>.
\<close>

type_synonym oid = string
type_synonym date = string
type_synonym jstring = "nat list"

definition js :: "string \<Rightarrow> jstring" where
  "js s = map of_char s"

definition is_space :: "nat \<Rightarrow> bool" where
  \<comment> \<open>the white space and the line terminators of ECMAScript, which \<open>trim\<close> and the
      class \<open>\s\<close> of a regular expression share\<close>
  "is_space c =
     (c \<in> set [0x09, 0x0A, 0x0B, 0x0C, 0x0D, 0x20, 0xA0, 0x1680, 0x2028, 0x2029, 0x202F,
               0x205F, 0x3000, 0xFEFF] \<or>
      (0x2000 \<le> c \<and> c \<le> 0x200A))"

definition trim :: "jstring \<Rightarrow> jstring" where
  "trim s = rev (dropWhile is_space (rev (dropWhile is_space s)))"

definition iso_day :: "date \<Rightarrow> string" where
  \<comment> \<open>\<open>d.toISOString().split('T')[0]\<close>\<close>
  "iso_day d = takeWhile (\<lambda>c. c \<noteq> CHR ''T'') d"

definition dq :: string where
  "dq = [CHR 0x22]"

definition truthy :: "'a list option \<Rightarrow> bool" where
  \<comment> \<open>a string in a condition: \<open>undefined\<close> and the empty string are false\<close>
  "truthy s = (case s of None \<Rightarrow> False | Some x \<Rightarrow> x \<noteq> [])"

definition hex_digit :: "nat \<Rightarrow> bool" where
  \<comment> \<open>\<open>0-9\<close>, \<open>a-f\<close> or \<open>A-F\<close>\<close>
  "hex_digit c = ((48 \<le> c \<and> c \<le> 57) \<or> (97 \<le> c \<and> c \<le> 102) \<or> (65 \<le> c \<and> c \<le> 70))"

definition is_ObjectId_string :: "jstring \<Rightarrow> bool" where
  \<comment> \<open>the strings that \<open>new Types.ObjectId\<close> takes; on the others it throws\<close>
  "is_ObjectId_string x = (length x = 24 \<and> list_all hex_digit x)"

definition ObjectId :: "jstring \<Rightarrow> oid" where
  \<comment> \<open>\<open>new Types.ObjectId(x)\<close> for a string that it takes: the digits in lower case\<close>
  "ObjectId x = map (\<lambda>c. char_of (if 65 \<le> c \<and> c \<le> 70 then c + 32 else c)) x"

definition toString :: "oid \<Rightarrow> jstring" where
  "toString i = map of_char i"

definition canonical :: "jstring \<Rightarrow> bool" where
  \<comment> \<open>the spelling that \<open>toString\<close> gives: 24 digits, the letters in lower case\<close>
  "canonical x =
     (length x = 24 \<and> list_all (\<lambda>c. (48 \<le> c \<and> c \<le> 57) \<or> (97 \<le> c \<and> c \<le> 102)) x)"

section \<open>The Task model\<close>

datatype TaskStatus = Backlog | Todo | In_progress | In_review | Done | Archived

datatype TaskPriority = Low | Medium | High | Urgent

datatype ActivityType =
    Created | Updated | Status_changed | Assigned | Unassigned | Priority_changed
  | Due_date_changed | Comment_added | Attachment_added | Attachment_removed
  | Tag_added | Tag_removed

fun status_str :: "TaskStatus \<Rightarrow> string" where
  "status_str Backlog = ''backlog''"
| "status_str Todo = ''todo''"
| "status_str In_progress = ''in_progress''"
| "status_str In_review = ''in_review''"
| "status_str Done = ''done''"
| "status_str Archived = ''archived''"

fun priority_str :: "TaskPriority \<Rightarrow> string" where
  "priority_str Low = ''low''"
| "priority_str Medium = ''medium''"
| "priority_str High = ''high''"
| "priority_str Urgent = ''urgent''"

text \<open>
  The \<open>metadata\<close> object of an activity, one constructor per shape that the service
  writes. In \<open>Date_from_to\<close> the first component is \<open>oldDate\<close> (\<open>None\<close> is
  \<open>undefined\<close>) and the second is \<open>newDate\<close> (\<open>None\<close> is \<open>null\<close>).
\<close>

datatype metadata =
    Status_from_to TaskStatus TaskStatus
  | Priority_from_to TaskPriority TaskPriority
  | Date_from_to "string option" "string option"
  | Added "jstring list"
  | Removed "jstring list"
  | Fields "jstring list"

record activity =
  a_type :: ActivityType
  a_actor :: oid
  a_description :: string
  a_metadata :: "metadata option"
  a_timestamp :: date

text \<open>
  The fields of \<open>ITask\<close> that the task service reads or writes. Attachments, comments,
  dependencies, the recurrence pattern and the two automatic timestamps are left out:
  no operation below touches them.
\<close>

record task =
  tid :: oid
  title :: jstring
  description :: "jstring option"
  status :: TaskStatus
  priority :: TaskPriority
  assignees :: "oid list"
  createdBy :: oid
  dueDate :: "date option"
  startDate :: "date option"
  estimatedHours :: "real option"
  actualHours :: real
  tags :: "jstring list"
  activities :: "activity list"
  parentTask :: "oid option"
  subtasks :: "oid list"
  completedAt :: "date option"
  order_no :: real

text \<open>
  \<open>CreateTaskData\<close> and \<open>UpdateTaskData\<close>: a key that is absent is \<open>None\<close>. The
  update route lets \<open>dueDate\<close> and \<open>startDate\<close> be \<open>null\<close>, which is \<open>Some None\<close>.
  \<open>u_keys\<close> is \<open>Object.keys\<close> of the proposal: the keys of the object in the order in
  which the request body lists them.
\<close>

record CreateTaskData =
  c_title :: jstring
  c_description :: "jstring option"
  c_status :: "TaskStatus option"
  c_priority :: "TaskPriority option"
  c_assignees :: "jstring list option"
  c_dueDate :: "date option"
  c_startDate :: "date option"
  c_estimatedHours :: "real option"
  c_tags :: "jstring list option"
  c_parentTask :: "jstring option"

record UpdateTaskData =
  u_title :: "jstring option"
  u_description :: "jstring option"
  u_status :: "TaskStatus option"
  u_priority :: "TaskPriority option"
  u_assignees :: "jstring list option"
  u_dueDate :: "date option option"
  u_startDate :: "date option option"
  u_estimatedHours :: "real option"
  u_tags :: "jstring list option"
  u_parentTask :: "jstring option"
  u_actualHours :: "real option"
  u_order :: "real option"
  u_keys :: "jstring list"

datatype error = BSONError | CastError | ValidationError

subsection \<open>The store primitives\<close>

text \<open>
  The collection is the list of its documents. \<open>findById\<close> and \<open>findByIdAndUpdate\<close>
  act on the first document with the identifier, \<open>updateOne\<close> on the first document
  that the query matches, \<open>updateMany\<close> on all of them. These three update calls
  send the update operators to the database as they are: the \<open>save\<close> middleware of a
  schema runs on \<open>document.save()\<close> only.
\<close>

fun findById :: "oid \<Rightarrow> task list \<Rightarrow> task option" where
  "findById i [] = None"
| "findById i (t # ts) = (if tid t = i then Some t else findById i ts)"

fun findByIdAndUpdate :: "oid \<Rightarrow> (task \<Rightarrow> task) \<Rightarrow> task list \<Rightarrow> task option \<times> task list" where
  "findByIdAndUpdate i f [] = (None, [])"
| "findByIdAndUpdate i f (t # ts) =
     (if tid t = i then (Some (f t), f t # ts)
      else (case findByIdAndUpdate i f ts of (r, ts') \<Rightarrow> (r, t # ts')))"

definition updateMany :: "('a \<Rightarrow> bool) \<Rightarrow> ('a \<Rightarrow> 'a) \<Rightarrow> 'a list \<Rightarrow> nat \<times> 'a list" where
  \<comment> \<open>the count is \<open>modifiedCount\<close>: the matched documents that the update changed\<close>
  "updateMany q f ds =
     (length (filter (\<lambda>d. q d \<and> f d \<noteq> d) ds), map (\<lambda>d. if q d then f d else d) ds)"

fun updateOne :: "('a \<Rightarrow> bool) \<Rightarrow> ('a \<Rightarrow> 'a) \<Rightarrow> 'a list \<Rightarrow> nat \<times> 'a list" where
  "updateOne q f [] = (0, [])"
| "updateOne q f (d # ds) =
     (if q d then ((if f d = d then 0 else 1), f d # ds)
      else (case updateOne q f ds of (n, ds') \<Rightarrow> (n, d # ds')))"

definition pre_save :: "date \<Rightarrow> bool \<Rightarrow> task \<Rightarrow> task" where
  \<comment> \<open>\<open>taskSchema.pre('save')\<close>; the flag is \<open>this.isModified('status')\<close>\<close>
  "pre_save now status_modified t =
     (if status_modified then
        (if status t = Done \<and> completedAt t = None then t\<lparr>completedAt := Some now\<rparr>
         else if status t \<noteq> Done then t\<lparr>completedAt := None\<rparr>
         else t)
      else t)"

subsection \<open>createTask\<close>

definition valid_create :: "CreateTaskData \<Rightarrow> bool" where
  \<comment> \<open>the validators that the schema declares for the paths of \<open>CreateTaskData\<close>\<close>
  "valid_create d =
     (trim (c_title d) \<noteq> [] \<and> length (trim (c_title d)) \<le> 200 \<and>
      (case c_description d of None \<Rightarrow> True | Some s \<Rightarrow> length (trim s) \<le> 10000) \<and>
      (case c_estimatedHours d of None \<Rightarrow> True | Some h \<Rightarrow> 0 \<le> h \<and> h \<le> 1000) \<and>
      (case c_tags d of None \<Rightarrow> True | Some gs \<Rightarrow> list_all (\<lambda>g. length (trim g) \<le> 50) gs))"

definition castable_create :: "CreateTaskData \<Rightarrow> bool" where
  \<comment> \<open>no \<open>new Types.ObjectId\<close> of \<open>createTask\<close> throws\<close>
  "castable_create d =
     ((case c_assignees d of None \<Rightarrow> True | Some as \<Rightarrow> list_all is_ObjectId_string as) \<and>
      (case c_parentTask d of None \<Rightarrow> True | Some p \<Rightarrow> p = [] \<or> is_ObjectId_string p))"

definition new_task :: "oid \<Rightarrow> date \<Rightarrow> CreateTaskData \<Rightarrow> oid \<Rightarrow> task" where
  \<comment> \<open>\<open>new Task({...})\<close> with the defaults of the schema\<close>
  "new_task new_id now d createdById =
     \<lparr> tid = new_id,
       title = trim (c_title d),
       description = map_option trim (c_description d),
       status = (case c_status d of None \<Rightarrow> Todo | Some s \<Rightarrow> s),
       priority = (case c_priority d of None \<Rightarrow> Medium | Some p \<Rightarrow> p),
       assignees = (case c_assignees d of None \<Rightarrow> [] | Some as \<Rightarrow> map ObjectId as),
       createdBy = createdById,
       dueDate = c_dueDate d,
       startDate = c_startDate d,
       estimatedHours = c_estimatedHours d,
       actualHours = 0,
       tags = (case c_tags d of None \<Rightarrow> [] | Some gs \<Rightarrow> map trim gs),
       activities =
         [\<lparr> a_type = Created, a_actor = createdById, a_description = ''Task created'',
            a_metadata = None, a_timestamp = now \<rparr>],
       parentTask = (if truthy (c_parentTask d) then map_option ObjectId (c_parentTask d)
                     else None),
       subtasks = [],
       completedAt = None,
       order_no = 0 \<rparr>"

definition createTask ::
  "oid \<Rightarrow> date \<Rightarrow> CreateTaskData \<Rightarrow> oid \<Rightarrow> task list \<Rightarrow> (error + task) \<times> task list" where
  "createTask new_id now d createdById store =
     (if \<not> castable_create d then (Inl BSONError, store)
      else if \<not> valid_create d then (Inl ValidationError, store)
      else
        (let t = pre_save now (c_status d \<noteq> None) (new_task new_id now d createdById);
             store1 = store @ [t];
             store2 = (case c_parentTask d of
                         None \<Rightarrow> store1
                       | Some p \<Rightarrow>
                           if p = [] then store1
                           else snd (findByIdAndUpdate (ObjectId p)
                                       (\<lambda>x. x\<lparr>subtasks := subtasks x @ [tid t]\<rparr>) store1))
         in (Inr t, store2)))"

subsection \<open>updateTask\<close>

definition status_activity :: "date \<Rightarrow> oid \<Rightarrow> task \<Rightarrow> UpdateTaskData \<Rightarrow> activity list" where
  "status_activity now actorId t u =
     (case u_status u of
        None \<Rightarrow> []
      | Some s \<Rightarrow>
          if s \<noteq> status t then
            [\<lparr> a_type = Status_changed, a_actor = actorId,
               a_description =
                 ''Status changed from '' @ dq @ status_str (status t) @ dq @ '' to '' @ dq @
                 status_str s @ dq,
               a_metadata = Some (Status_from_to (status t) s), a_timestamp = now \<rparr>]
          else [])"

definition priority_activity :: "date \<Rightarrow> oid \<Rightarrow> task \<Rightarrow> UpdateTaskData \<Rightarrow> activity list" where
  "priority_activity now actorId t u =
     (case u_priority u of
        None \<Rightarrow> []
      | Some p \<Rightarrow>
          if p \<noteq> priority t then
            [\<lparr> a_type = Priority_changed, a_actor = actorId,
               a_description =
                 ''Priority changed from '' @ dq @ priority_str (priority t) @ dq @ '' to '' @ dq @
                 priority_str p @ dq,
               a_metadata = Some (Priority_from_to (priority t) p), a_timestamp = now \<rparr>]
          else [])"

definition due_date_activity :: "date \<Rightarrow> oid \<Rightarrow> task \<Rightarrow> UpdateTaskData \<Rightarrow> activity list" where
  \<comment> \<open>\<open>oldDate\<close> is \<open>undefined\<close> for a task without a date and \<open>newDate\<close> is \<open>null\<close> for a
      removed one, and \<open>undefined !== null\<close> holds\<close>
  "due_date_activity now actorId t u =
     (case u_dueDate u of
        None \<Rightarrow> []
      | Some d \<Rightarrow>
          (let oldDate = map_option iso_day (dueDate t);
               newDate = map_option iso_day d
           in if oldDate = None \<or> oldDate \<noteq> newDate then
                [\<lparr> a_type = Due_date_changed, a_actor = actorId,
                   a_description =
                     (case newDate of
                        Some n \<Rightarrow> ''Due date changed to '' @ n
                      | None \<Rightarrow> ''Due date removed''),
                   a_metadata = Some (Date_from_to oldDate newDate), a_timestamp = now \<rparr>]
              else []))"

definition assignee_activities :: "date \<Rightarrow> oid \<Rightarrow> task \<Rightarrow> UpdateTaskData \<Rightarrow> activity list" where
  \<comment> \<open>two arrays of strings have the same \<open>JSON.stringify\<close> exactly when they are equal\<close>
  "assignee_activities now actorId t u =
     (case u_assignees u of
        None \<Rightarrow> []
      | Some as \<Rightarrow>
          (let oldAssignees = sort (map toString (assignees t));
               newAssignees = sort as
           in if oldAssignees \<noteq> newAssignees then
                (let added = filter (\<lambda>a. a \<notin> set oldAssignees) newAssignees;
                     removed = filter (\<lambda>a. a \<notin> set newAssignees) oldAssignees
                 in (if length added > 0 then
                       [\<lparr> a_type = Assigned, a_actor = actorId,
                          a_description = ''Assignees added'',
                          a_metadata = Some (Added added), a_timestamp = now \<rparr>]
                     else []) @
                    (if length removed > 0 then
                       [\<lparr> a_type = Unassigned, a_actor = actorId,
                          a_description = ''Assignees removed'',
                          a_metadata = Some (Removed removed), a_timestamp = now \<rparr>]
                     else []))
              else []))"

definition general_activity ::
  "date \<Rightarrow> oid \<Rightarrow> UpdateTaskData \<Rightarrow> activity list \<Rightarrow> activity list" where
  "general_activity now actorId u acts =
     (if length acts = 0 \<and> length (u_keys u) > 0 then
        [\<lparr> a_type = Updated, a_actor = actorId, a_description = ''Task updated'',
           a_metadata = Some (Fields (u_keys u)), a_timestamp = now \<rparr>]
      else [])"

definition track_changes :: "date \<Rightarrow> oid \<Rightarrow> task \<Rightarrow> UpdateTaskData \<Rightarrow> activity list" where
  \<comment> \<open>the array \<open>activities\<close> of \<open>updateTask\<close> when the update is sent\<close>
  "track_changes now actorId t u =
     (let acts = status_activity now actorId t u @ priority_activity now actorId t u @
                 due_date_activity now actorId t u @ assignee_activities now actorId t u
      in acts @ general_activity now actorId u acts)"

definition castable_update :: "UpdateTaskData \<Rightarrow> bool" where
  \<comment> \<open>\<open>new Types.ObjectId(id)\<close> throws for no proposed assignee\<close>
  "castable_update u =
     (case u_assignees u of None \<Rightarrow> True | Some as \<Rightarrow> list_all is_ObjectId_string as)"

definition castable_parent :: "UpdateTaskData \<Rightarrow> bool" where
  \<comment> \<open>the update casts the proposed \<open>parentTask\<close> to an \<open>ObjectId\<close>\<close>
  "castable_parent u =
     (case u_parentTask u of None \<Rightarrow> True | Some p \<Rightarrow> is_ObjectId_string p)"

definition valid_update :: "UpdateTaskData \<Rightarrow> bool" where
  \<comment> \<open>\<open>runValidators: true\<close>: the schema's validators of the paths that are set\<close>
  "valid_update u =
     ((case u_title u of None \<Rightarrow> True | Some s \<Rightarrow> trim s \<noteq> [] \<and> length (trim s) \<le> 200) \<and>
      (case u_description u of None \<Rightarrow> True | Some s \<Rightarrow> length (trim s) \<le> 10000) \<and>
      (case u_estimatedHours u of None \<Rightarrow> True | Some h \<Rightarrow> 0 \<le> h \<and> h \<le> 1000) \<and>
      (case u_actualHours u of None \<Rightarrow> True | Some h \<Rightarrow> 0 \<le> h \<and> h \<le> 1000) \<and>
      (case u_tags u of None \<Rightarrow> True | Some gs \<Rightarrow> list_all (\<lambda>g. length (trim g) \<le> 50) gs))"

definition apply_set :: "UpdateTaskData \<Rightarrow> task \<Rightarrow> task" where
  \<comment> \<open>the keys of \<open>updateData\<close> other than \<open>$push\<close> are a \<open>$set\<close>; \<open>updates.assignees\<close> was
      sorted in place before its elements are made \<open>ObjectId\<close>s\<close>
  "apply_set u t =
     t\<lparr> title := (case u_title u of None \<Rightarrow> title t | Some s \<Rightarrow> trim s),
        description := (case u_description u of None \<Rightarrow> description t | Some s \<Rightarrow> Some (trim s)),
        status := (case u_status u of None \<Rightarrow> status t | Some s \<Rightarrow> s),
        priority := (case u_priority u of None \<Rightarrow> priority t | Some p \<Rightarrow> p),
        assignees :=
          (case u_assignees u of None \<Rightarrow> assignees t | Some as \<Rightarrow> map ObjectId (sort as)),
        dueDate := (case u_dueDate u of None \<Rightarrow> dueDate t | Some d \<Rightarrow> d),
        startDate := (case u_startDate u of None \<Rightarrow> startDate t | Some d \<Rightarrow> d),
        estimatedHours :=
          (case u_estimatedHours u of None \<Rightarrow> estimatedHours t | Some h \<Rightarrow> Some h),
        tags := (case u_tags u of None \<Rightarrow> tags t | Some gs \<Rightarrow> map trim gs),
        parentTask :=
          (case u_parentTask u of None \<Rightarrow> parentTask t | Some p \<Rightarrow> Some (ObjectId p)),
        actualHours := (case u_actualHours u of None \<Rightarrow> actualHours t | Some h \<Rightarrow> h),
        order_no := (case u_order u of None \<Rightarrow> order_no t | Some n \<Rightarrow> n) \<rparr>"

definition push_activities :: "activity list \<Rightarrow> task \<Rightarrow> task" where
  \<comment> \<open>\<open>$push: { activities: { $each: activities } }\<close>\<close>
  "push_activities acts t = t\<lparr>activities := activities t @ acts\<rparr>"

definition updateTask ::
  "date \<Rightarrow> oid \<Rightarrow> UpdateTaskData \<Rightarrow> oid \<Rightarrow> task list \<Rightarrow> (error + task option) \<times> task list" where
  "updateTask now taskId updates actorId store =
     (case findById taskId store of
        None \<Rightarrow> (Inr None, store)
      | Some t \<Rightarrow>
          (let acts = track_changes now actorId t updates in
           if \<not> castable_update updates then (Inl BSONError, store)
           else if \<not> castable_parent updates then (Inl CastError, store)
           else if \<not> valid_update updates then (Inl ValidationError, store)
           else
             (case findByIdAndUpdate taskId (\<lambda>d. push_activities acts (apply_set updates d)) store of
                (r, store') \<Rightarrow> (Inr r, store'))))"

subsection \<open>bulkUpdateStatus\<close>

definition bulkUpdateStatus ::
  "date \<Rightarrow> oid list \<Rightarrow> TaskStatus \<Rightarrow> oid \<Rightarrow> task list \<Rightarrow> nat \<times> task list" where
  "bulkUpdateStatus now taskIds s actorId store =
     updateMany (\<lambda>t. tid t \<in> set taskIds)
       (\<lambda>t. t\<lparr> status := s,
               activities := activities t @
                 [\<lparr> a_type = Status_changed, a_actor = actorId,
                    a_description = ''Status changed to '' @ dq @ status_str s @ dq,
                    a_metadata = None, a_timestamp = now \<rparr>] \<rparr>)
       store"

section \<open>The Message model\<close>

record readEntry =
  r_user :: oid
  r_readAt :: date

record reaction =
  emoji :: jstring
  users :: "oid list"

text \<open>
  The fields of \<open>IMessage\<close> but \<open>attachments\<close> and \<open>updatedAt\<close>, which the message
  service neither reads nor writes.
\<close>

record message =
  mid :: oid
  content :: jstring
  sender :: oid
  recipient :: "oid option"
  channel :: "jstring option"
  taskRef :: "oid option"
  mentions :: "oid list"
  readBy :: "readEntry list"
  isEdited :: bool
  editedAt :: "date option"
  isDeleted :: bool
  deletedAt :: "date option"
  replyTo :: "oid option"
  reactions :: "reaction list"
  createdAt :: date

record SendMessageData =
  s_content :: "jstring option"
  s_recipient :: "jstring option"
  s_channel :: "jstring option"
  s_taskRef :: "jstring option"
  s_mentions :: "jstring list option"
  s_replyTo :: "jstring option"


fun findMessageById :: "oid \<Rightarrow> message list \<Rightarrow> message option" where
  "findMessageById i [] = None"
| "findMessageById i (m # ms) = (if mid m = i then Some m else findMessageById i ms)"

subsection \<open>sendMessage\<close>

definition valid_message :: "message \<Rightarrow> bool" where
  \<comment> \<open>the validators of \<open>messageSchema\<close> that \<open>save\<close> runs\<close>
  "valid_message m = (content m \<noteq> [] \<and> length (content m) \<le> 5000 \<and>
     (case channel m of None \<Rightarrow> True | Some c \<Rightarrow> length c \<le> 100))"

definition castable_send :: "SendMessageData \<Rightarrow> bool" where
  \<comment> \<open>no \<open>new Types.ObjectId\<close> of \<open>sendMessage\<close> throws\<close>
  "castable_send d =
     ((case s_recipient d of None \<Rightarrow> True | Some r \<Rightarrow> r = [] \<or> is_ObjectId_string r) \<and>
      (case s_taskRef d of None \<Rightarrow> True | Some r \<Rightarrow> r = [] \<or> is_ObjectId_string r) \<and>
      (case s_mentions d of None \<Rightarrow> True | Some us \<Rightarrow> list_all is_ObjectId_string us) \<and>
      (case s_replyTo d of None \<Rightarrow> True | Some r \<Rightarrow> r = [] \<or> is_ObjectId_string r))"

definition new_message :: "oid \<Rightarrow> date \<Rightarrow> SendMessageData \<Rightarrow> oid \<Rightarrow> message" where
  "new_message new_id now d senderId =
     \<lparr> mid = new_id,
       content = (case s_content d of None \<Rightarrow> [] | Some c \<Rightarrow> c),
       sender = senderId,
       recipient = (if truthy (s_recipient d) then map_option ObjectId (s_recipient d) else None),
       channel = map_option trim (s_channel d),
       taskRef = (if truthy (s_taskRef d) then map_option ObjectId (s_taskRef d) else None),
       mentions = (case s_mentions d of None \<Rightarrow> [] | Some us \<Rightarrow> map ObjectId us),
       readBy = [],
       isEdited = False,
       editedAt = None,
       isDeleted = False,
       deletedAt = None,
       replyTo = (if truthy (s_replyTo d) then map_option ObjectId (s_replyTo d) else None),
       reactions = [],
       createdAt = now \<rparr>"

definition sendMessage ::
  "oid \<Rightarrow> date \<Rightarrow> SendMessageData \<Rightarrow> oid \<Rightarrow> message list \<Rightarrow> (error + message) \<times> message list" where
  "sendMessage new_id now d senderId store =
     (let m = new_message new_id now d senderId in
      if \<not> castable_send d then (Inl BSONError, store)
      else if valid_message m then (Inr m, store @ [m])
      else (Inl ValidationError, store))"

subsection \<open>getMessages\<close>



subsection \<open>Read receipts\<close>

definition readers :: "message \<Rightarrow> oid list" where
  \<comment> \<open>the values of the path \<open>readBy.user\<close>\<close>
  "readers m = map r_user (readBy m)"

definition push_read :: "oid \<Rightarrow> date \<Rightarrow> message \<Rightarrow> message" where
  "push_read u now m = m\<lparr>readBy := readBy m @ [\<lparr>r_user = u, r_readAt = now\<rparr>]\<rparr>"


definition markConversationAsRead ::
  "date \<Rightarrow> oid \<Rightarrow> jstring option \<Rightarrow> oid option \<Rightarrow> message list \<Rightarrow> message list" where
  "markConversationAsRead now userId channel_opt recipientId store =
     snd (updateMany
            (\<lambda>m. userId \<notin> set (readers m) \<and>
                 (if truthy channel_opt then channel m = channel_opt else True) \<and>
                 (if truthy recipientId then Some (sender m) = recipientId \<and> recipient m = Some userId
                  else True))
            (push_read userId now) store)"

subsection \<open>deleteMessage\<close>

definition deleteMessage :: "date \<Rightarrow> oid \<Rightarrow> oid \<Rightarrow> message list \<Rightarrow> bool \<times> message list" where
  "deleteMessage now messageId userId store =
     (case updateOne (\<lambda>m. mid m = messageId \<and> sender m = userId)
             (\<lambda>m. m\<lparr>isDeleted := True, deletedAt := Some now\<rparr>) store of
        (n, store') \<Rightarrow> (n > 0, store'))"

subsection \<open>Reactions\<close>

text \<open>
  In a query, \<open>'reactions.emoji': e\<close> holds when some entry of the array has the emoji,
  and \<open>'reactions.users': {$ne: u}\<close> holds when no entry of the array lists \<open>u\<close>; the two
  conditions need not meet in one entry. The position \<open>$\<close> of the update is the first
  entry with the emoji.
\<close>

fun push_user :: "jstring \<Rightarrow> oid \<Rightarrow> reaction list \<Rightarrow> reaction list" where
  "push_user e u [] = []"
| "push_user e u (r # rs) =
     (if emoji r = e then r\<lparr>users := users r @ [u]\<rparr> # rs else r # push_user e u rs)"


definition addReaction ::
  "oid \<Rightarrow> jstring \<Rightarrow> oid \<Rightarrow> message list \<Rightarrow> message option \<times> message list" where
  "addReaction messageId e userId store =
     (case updateOne
             (\<lambda>m. mid m = messageId \<and> e \<in> set (map emoji (reactions m)) \<and>
                  userId \<notin> set (concat (map users (reactions m))))
             (\<lambda>m. m\<lparr>reactions := push_user e userId (reactions m)\<rparr>) store of
        (modifiedCount, store1) \<Rightarrow>
          (let store2 =
                 (if modifiedCount = 0 then
                    snd (updateOne
                           (\<lambda>m. mid m = messageId \<and> e \<notin> set (map emoji (reactions m)))
                           (\<lambda>m. m\<lparr>reactions := reactions m @ [\<lparr>emoji = e, users = [userId]\<rparr>]\<rparr>)
                           store1)
                  else store1)
           in (findMessageById messageId store2, store2)))"


subsection \<open>getUnreadCount\<close>

text \<open>
  The two breakdowns are objects made with \<open>{}\<close>: a name that \<open>Object.prototype\<close> has
  is read through the prototype. For such a channel name \<open>byChannel[c] || 0\<close> is the
  inherited value, and \<open>+\<close> makes a string of it and the count; for \<open>__proto__\<close> the
  assignment sets no property at all. A value of a breakdown is therefore a number or
  such a string.
\<close>

datatype cell = Count nat | Text

record UnreadCount =
  total :: nat
  byChannel :: "jstring \<rightharpoonup> cell"
  byConversation :: "oid \<rightharpoonup> cell"

definition inherited :: "jstring list" where
  \<comment> \<open>the names of the properties of \<open>Object.prototype\<close>\<close>
  "inherited =
     map js [''constructor'', ''__defineGetter__'', ''__defineSetter__'', ''hasOwnProperty'',
              ''__lookupGetter__'', ''__lookupSetter__'', ''isPrototypeOf'',
              ''propertyIsEnumerable'', ''toString'', ''valueOf'', ''__proto__'',
              ''toLocaleString'']"

definition unread_match :: "oid \<Rightarrow> message \<Rightarrow> bool" where
  \<comment> \<open>the \<open>$match\<close> stage\<close>
  "unread_match u m =
     (isDeleted m \<noteq> True \<and> sender m \<noteq> u \<and>
      (recipient m = Some u \<or> channel m \<noteq> None) \<and>
      u \<notin> set (readers m))"

definition unread_groups :: "oid \<Rightarrow> message list \<Rightarrow> ((jstring option \<times> oid) \<times> nat) list" where
  \<comment> \<open>the \<open>$group\<close> stage: one document for each pair of channel and sender, with its count\<close>
  "unread_groups u store =
     (let ks = map (\<lambda>m. (channel m, sender m)) (filter (unread_match u) store)
      in map (\<lambda>k. (k, count_list ks k)) (remdups ks))"

definition add_count :: "jstring \<Rightarrow> cell option \<Rightarrow> nat \<Rightarrow> cell" where
  \<comment> \<open>\<open>(byChannel[c] || 0) + count\<close>, for the entry of \<open>c\<close> that the object has of its own\<close>
  "add_count c own n =
     (case own of
        None \<Rightarrow> if c \<in> set inherited then Text else Count n
      | Some (Count k) \<Rightarrow> Count (k + n)
      | Some Text \<Rightarrow> Text)"

fun tally :: "(jstring option \<times> oid) \<times> nat \<Rightarrow> UnreadCount \<Rightarrow> UnreadCount" where
  \<comment> \<open>the body of the loop over the groups; the sender of a group is an object and so
      true, and its rendering is no name of \<open>Object.prototype\<close>\<close>
  "tally ((ch, s), n) r =
     (let r1 = r\<lparr>total := total r + n\<rparr> in
      case ch of
        None \<Rightarrow> r1\<lparr>byConversation := (byConversation r1)(s \<mapsto> Count n)\<rparr>
      | Some c \<Rightarrow>
          if c \<noteq> [] then
            (if c = js ''__proto__'' then r1
             else r1\<lparr>byChannel := (byChannel r1)(c \<mapsto> add_count c (byChannel r1 c) n)\<rparr>)
          else r1\<lparr>byConversation := (byConversation r1)(s \<mapsto> Count n)\<rparr>)"

definition getUnreadCount :: "oid \<Rightarrow> message list \<Rightarrow> UnreadCount" where
  "getUnreadCount userId store =
     fold tally (unread_groups userId store)
       \<lparr>total = 0, byChannel = Map.empty, byConversation = Map.empty\<rparr>"

definition number :: "cell option \<Rightarrow> nat" where
  "number v = (case v of Some (Count n) \<Rightarrow> n | _ \<Rightarrow> 0)"

definition sum_values :: "('k \<rightharpoonup> cell) \<Rightarrow> nat" where
  \<comment> \<open>the sum of the numbers that a breakdown holds\<close>
  "sum_values m = sum (\<lambda>k. number (m k)) (dom m)"

definition spec_unread_count :: "(oid \<Rightarrow> jstring \<Rightarrow> bool) \<Rightarrow> oid \<Rightarrow> message list \<Rightarrow> nat" where
  \<comment> \<open>the count as the specification words it, for a given relation of users and the
      channels they participate in\<close>
  "spec_unread_count participates u store =
     length (filter (\<lambda>m. isDeleted m \<noteq> True \<and> sender m \<noteq> u \<and>
                        (recipient m = Some u \<or>
                         (case channel m of None \<Rightarrow> False | Some c \<Rightarrow> participates u c)) \<and>
                        u \<notin> set (map r_user (readBy m))) store)"

section \<open>Events sent to the connections\<close>

datatype target =
    To_all \<comment> \<open>\<open>io.emit\<close>: every connected client\<close>
  | To_room jstring \<comment> \<open>\<open>io.to(room).emit\<close>\<close>

datatype event =
    User_online oid bool
  | Message_new message
  | Mention_new message oid

datatype emission = Emit target event

subsection \<open>POST /api/messages\<close>

text \<open>
  The handler with the validation chain before it. The chain trims \<open>content\<close> and
  \<open>channel\<close> in the body; \<open>notEmpty\<close>, \<open>isLength\<close> and \<open>isMongoId\<close> are the ones of the
  validator library: \<open>isLength\<close> counts a surrogate pair once and a variation selector
  not at all, and \<open>isMongoId\<close> takes 24 characters that \<open>isHexadecimal\<close> takes, which
  may begin with \<open>0x\<close> or \<open>0h\<close>. The result is the status of the response, the store
  and what was emitted.
\<close>

definition sanitize :: "SendMessageData \<Rightarrow> SendMessageData" where
  "sanitize b = b\<lparr> s_content := Some (trim (case s_content b of None \<Rightarrow> [] | Some c \<Rightarrow> c)),
                   s_channel := map_option trim (s_channel b) \<rparr>"

fun surrogate_pairs :: "jstring \<Rightarrow> nat" where
  "surrogate_pairs (h # l # cs) =
     (if 0xD800 \<le> h \<and> h \<le> 0xDBFF \<and> 0xDC00 \<le> l \<and> l \<le> 0xDFFF then Suc (surrogate_pairs cs)
      else surrogate_pairs (l # cs))"
| "surrogate_pairs cs = 0"

definition isLength :: "nat \<Rightarrow> jstring \<Rightarrow> bool" where
  \<comment> \<open>\<open>isLength({max})\<close>\<close>
  "isLength n x =
     (length x - length (filter (\<lambda>c. c = 0xFE0F \<or> c = 0xFE0E) x) - surrogate_pairs x \<le> n)"

definition isHexadecimal :: "jstring \<Rightarrow> bool" where
  "isHexadecimal x =
     ((x \<noteq> [] \<and> list_all hex_digit x) \<or>
      (take 2 x \<in> set [js ''0x'', js ''0h'', js ''0X'', js ''0H''] \<and> drop 2 x \<noteq> [] \<and>
       list_all hex_digit (drop 2 x)))"

definition isMongoId :: "jstring \<Rightarrow> bool" where
  "isMongoId x = (isHexadecimal x \<and> length x = 24)"

definition chain_ok :: "SendMessageData \<Rightarrow> bool" where
  "chain_ok b =
     ((case s_content b of None \<Rightarrow> False | Some c \<Rightarrow> c \<noteq> [] \<and> isLength 5000 c) \<and>
      (case s_recipient b of None \<Rightarrow> True | Some r \<Rightarrow> isMongoId r) \<and>
      (case s_taskRef b of None \<Rightarrow> True | Some r \<Rightarrow> isMongoId r) \<and>
      (case s_mentions b of None \<Rightarrow> True | Some us \<Rightarrow> list_all isMongoId us) \<and>
      (case s_replyTo b of None \<Rightarrow> True | Some r \<Rightarrow> isMongoId r))"

definition post_message ::
  "oid \<Rightarrow> date \<Rightarrow> oid \<Rightarrow> SendMessageData \<Rightarrow> message list \<Rightarrow> nat \<times> message list \<times> emission list" where
  "post_message new_id now userId body0 store =
     (let body = sanitize body0 in
      if \<not> chain_ok body then (400, store, [])
      else if \<not> truthy (s_recipient body) \<and> \<not> truthy (s_channel body) then (400, store, [])
      else
        (case sendMessage new_id now body userId store of
           (Inl err, store') \<Rightarrow> (400, store', [])
         | (Inr m, store') \<Rightarrow>
             (201, store',
              (if truthy (s_channel body) then
                 [Emit (To_room (js ''channel:'' @ the (s_channel body))) (Message_new m)]
               else if truthy (s_recipient body) then
                 [Emit (To_room (js ''user:'' @ the (s_recipient body))) (Message_new m),
                  Emit (To_room (js ''user:'' @ toString userId)) (Message_new m)]
               else []) @
              (case s_mentions body of
                 None \<Rightarrow> []
               | Some us \<Rightarrow>
                   map (\<lambda>u. Emit (To_room (js ''user:'' @ u)) (Mention_new m userId)) us))))"

section \<open>The presence registry of the socket server\<close>

text \<open>
  \<open>onlineUsers\<close> is the \<open>Map\<close> from a user to the \<open>Set\<close> of the identifiers of the user's
  sockets; a \<open>Set\<close> is the list of its elements in the order of insertion. \<open>rooms\<close> holds
  the pairs of a socket and a room it has joined; a socket that disconnects has left
  every room.
\<close>

record io_state =
  onlineUsers :: "oid \<rightharpoonup> string list"
  rooms :: "(string \<times> jstring) list"

definition Set_add :: "'a \<Rightarrow> 'a list \<Rightarrow> 'a list" where
  "Set_add x xs = (if x \<in> set xs then xs else xs @ [x])"

definition Set_delete :: "'a \<Rightarrow> 'a list \<Rightarrow> 'a list" where
  "Set_delete x xs = removeAll x xs"

definition init_io :: io_state where
  "init_io = \<lparr>onlineUsers = Map.empty, rooms = []\<rparr>"

definition connection :: "oid \<Rightarrow> string \<Rightarrow> io_state \<Rightarrow> io_state \<times> emission list" where
  \<comment> \<open>the body of \<open>io.on('connection')\<close> for the socket \<open>sid\<close> of the user\<close>
  "connection userId sid s =
     (let m1 = (if onlineUsers s userId = None then (onlineUsers s)(userId \<mapsto> []) else onlineUsers s);
          m2 = m1(userId \<mapsto> Set_add sid (case m1 userId of None \<Rightarrow> [] | Some cs \<Rightarrow> cs))
      in (s\<lparr> onlineUsers := m2,
             rooms := Set_add (sid, js ''channel:general'')
                        (Set_add (sid, js ''user:'' @ toString userId) (rooms s)) \<rparr>,
          [Emit To_all (User_online userId True)]))"

definition disconnect :: "oid \<Rightarrow> string \<Rightarrow> io_state \<Rightarrow> io_state \<times> emission list" where
  \<comment> \<open>the handler of \<open>disconnect\<close> that the connection of the socket \<open>sid\<close> registered\<close>
  "disconnect userId sid s =
     (let s1 = s\<lparr>rooms := filter (\<lambda>p. fst p \<noteq> sid) (rooms s)\<rparr> in
      case onlineUsers s userId of
        None \<Rightarrow> (s1, [])
      | Some userSockets \<Rightarrow>
          (let userSockets' = Set_delete sid userSockets in
           if length userSockets' = 0 then
             (s1\<lparr>onlineUsers := (onlineUsers s)(userId := None)\<rparr>,
              [Emit To_all (User_online userId False)])
           else (s1\<lparr>onlineUsers := (onlineUsers s)(userId \<mapsto> userSockets')\<rparr>, [])))"

definition isUserOnline :: "io_state \<Rightarrow> oid \<Rightarrow> bool" where
  "isUserOnline s userId =
     (case onlineUsers s userId of None \<Rightarrow> False | Some cs \<Rightarrow> length cs > 0)"

datatype socket_event = Connect oid string | Disconnect oid string

fun handle :: "socket_event \<Rightarrow> io_state \<Rightarrow> io_state \<times> emission list" where
  "handle (Connect u c) s = connection u c s"
| "handle (Disconnect u c) s = disconnect u c s"

fun run :: "socket_event list \<Rightarrow> io_state \<Rightarrow> io_state \<times> emission list" where
  \<comment> \<open>the events in their order, with all that was emitted\<close>
  "run [] s = (s, [])"
| "run (e # es) s =
     (case handle e s of (s1, out1) \<Rightarrow> (case run es s1 of (s2, out2) \<Rightarrow> (s2, out1 @ out2)))"

fun went_online :: "oid \<Rightarrow> socket_event list \<Rightarrow> io_state \<Rightarrow> nat" where
  \<comment> \<open>how often the user passes from offline to online in the run\<close>
  "went_online u [] s = 0"
| "went_online u (e # es) s =
     (let s1 = fst (handle e s) in
      (if \<not> isUserOnline s u \<and> isUserOnline s1 u then 1 else 0) + went_online u es s1)"

fun went_offline :: "oid \<Rightarrow> socket_event list \<Rightarrow> io_state \<Rightarrow> nat" where
  \<comment> \<open>how often the user passes from online to offline in the run\<close>
  "went_offline u [] s = 0"
| "went_offline u (e # es) s =
     (let s1 = fst (handle e s) in
      (if isUserOnline s u \<and> \<not> isUserOnline s1 u then 1 else 0) + went_offline u es s1)"

section \<open>Proposals and data of the scenarios\<close>

definition status_only :: "TaskStatus \<Rightarrow> UpdateTaskData" where
  \<comment> \<open>the proposal \<open>{status: s}\<close>\<close>
  "status_only s =
     \<lparr> u_title = None, u_description = None, u_status = Some s, u_priority = None,
       u_assignees = None, u_dueDate = None, u_startDate = None, u_estimatedHours = None,
       u_tags = None, u_parentTask = None, u_actualHours = None, u_order = None,
       u_keys = [js ''status''] \<rparr>"

definition assignees_only :: "jstring list \<Rightarrow> UpdateTaskData" where
  \<comment> \<open>the proposal \<open>{assignees: as}\<close>\<close>
  "assignees_only as =
     \<lparr> u_title = None, u_description = None, u_status = None, u_priority = None,
       u_assignees = Some as, u_dueDate = None, u_startDate = None, u_estimatedHours = None,
       u_tags = None, u_parentTask = None, u_actualHours = None, u_order = None,
       u_keys = [js ''assignees''] \<rparr>"

definition uA :: oid where "uA = ''65a0000000000000000000aa''"
definition uB :: oid where "uB = ''65a0000000000000000000bb''"
definition uC :: oid where "uC = ''65a0000000000000000000cc''"

definition uA_capitals :: jstring where
  \<comment> \<open>the identifier \<open>uA\<close> written with capital letters\<close>
  "uA_capitals = js ''65A0000000000000000000AA''"

definition now0 :: date where "now0 = ''2024-05-01T10:00:00.000Z''"

definition task0 :: task where
  "task0 =
     \<lparr> tid = ''65b000000000000000000001'', title = js ''Write the report'', description = None,
       status = Todo, priority = Medium, assignees = [uA, uB], createdBy = uA,
       dueDate = None, startDate = None, estimatedHours = None, actualHours = 0, tags = [],
       activities = [], parentTask = None, subtasks = [], completedAt = None, order_no = 0 \<rparr>"

definition m_chan :: message where
  \<comment> \<open>a message of \<open>uA\<close> in the channel \<open>random\<close>\<close>
  "m_chan =
     \<lparr> mid = ''65c000000000000000000001'', content = js ''Release is out'', sender = uA,
       recipient = None, channel = Some (js ''random''), taskRef = None, mentions = [],
       readBy = [], isEdited = False, editedAt = None, isDeleted = False, deletedAt = None,
       replyTo = None, reactions = [], createdAt = ''2024-04-30T09:00:00.000Z'' \<rparr>"

definition m_del :: message where
  \<comment> \<open>a direct message of \<open>uA\<close> to \<open>uB\<close> that \<open>uA\<close> has deleted\<close>
  "m_del =
     \<lparr> mid = ''65c000000000000000000002'', content = js ''Sent by mistake'', sender = uA,
       recipient = Some uB, channel = None, taskRef = None, mentions = [],
       readBy = [], isEdited = False, editedAt = None, isDeleted = True,
       deletedAt = Some ''2024-04-30T09:30:00.000Z'',
       replyTo = None, reactions = [], createdAt = ''2024-04-30T09:10:00.000Z'' \<rparr>"

definition m_react :: message where
  \<comment> \<open>a message in \<open>general\<close> with a reaction of \<open>uA\<close> and another one of \<open>uB\<close>\<close>
  "m_react =
     \<lparr> mid = ''65c000000000000000000003'', content = js ''Lunch?'', sender = uA,
       recipient = None, channel = Some (js ''general''), taskRef = None, mentions = [],
       readBy = [], isEdited = False, editedAt = None, isDeleted = False, deletedAt = None,
       replyTo = None,
       reactions = [\<lparr>emoji = js '':+1:'', users = [uA]\<rparr>,
                    \<lparr>emoji = js '':heart:'', users = [uB]\<rparr>],
       createdAt = ''2024-04-30T09:20:00.000Z'' \<rparr>"

definition m_own :: message where
  \<comment> \<open>a direct message of \<open>uC\<close> to \<open>uB\<close>\<close>
  "m_own =
     \<lparr> mid = ''65c000000000000000000004'', content = js ''See you at five'', sender = uC,
       recipient = Some uB, channel = None, taskRef = None, mentions = [],
       readBy = [], isEdited = False, editedAt = None, isDeleted = False, deletedAt = None,
       replyTo = None, reactions = [], createdAt = ''2024-04-30T09:40:00.000Z'' \<rparr>"

definition store0 :: "message list" where
  "store0 = [m_chan, m_del, m_react, m_own]"

definition req_neither :: SendMessageData where
  "req_neither =
     \<lparr> s_content = Some (js ''hello''), s_recipient = None, s_channel = None,
       s_taskRef = None, s_mentions = None, s_replyTo = None \<rparr>"

definition req_both :: SendMessageData where
  "req_both =
     \<lparr> s_content = Some (js ''hello''), s_recipient = Some (toString uB),
       s_channel = Some (js ''general''),
       s_taskRef = None, s_mentions = None, s_replyTo = None \<rparr>"


definition sets_nonempty :: "io_state \<Rightarrow> bool" where
  \<comment> \<open>no user of the registry has an empty set of sockets\<close>
  "sets_nonempty s = (\<forall>u cs. onlineUsers s u = Some cs \<longrightarrow> cs \<noteq> [])"

definition two_tabs :: "socket_event list" where
  "two_tabs = [Connect uA ''sock-1'', Connect uA ''sock-2'']"

definition two_tabs_closed :: "socket_event list" where
  "two_tabs_closed = two_tabs @ [Disconnect uA ''sock-1'', Disconnect uA ''sock-2'']"

section \<open>Properties of the task service\<close>

subsection \<open>Identifiers and their spellings\<close>

lemma toString_inj: "toString a = toString b \<Longrightarrow> a = b"
  by (simp add: toString_def inj_map_eq_map inj_on_def)

lemma toString_ObjectId: "canonical x \<Longrightarrow> toString (ObjectId x) = x"
  unfolding canonical_def toString_def ObjectId_def list_all_iff
  by (auto intro!: map_idI)

lemma ObjectId_toString: "canonical (toString i) \<Longrightarrow> ObjectId (toString i) = i"
  unfolding canonical_def toString_def ObjectId_def list_all_iff
  by (auto intro!: map_idI)

lemma canonical_castable: "canonical x \<Longrightarrow> is_ObjectId_string x"
  by (auto simp: canonical_def is_ObjectId_string_def hex_digit_def list_all_iff)

lemma castable_isMongoId: "is_ObjectId_string x \<Longrightarrow> isMongoId x"
  by (auto simp: isMongoId_def isHexadecimal_def is_ObjectId_string_def)

lemma canonical_ids: "canonical (toString uA)" "canonical (toString uB)" "canonical (toString uC)"
  by (simp_all add: canonical_def toString_def uA_def uB_def uC_def)

lemma ObjectId_ids:
  "ObjectId (toString uA) = uA" "ObjectId (toString uB) = uB" "ObjectId (toString uC) = uC"
  by (simp_all add: ObjectId_toString canonical_ids)

lemma ObjectId_capitals: "ObjectId uA_capitals = uA"
  by (rule toString_inj) (simp add: ObjectId_def uA_capitals_def uA_def js_def toString_def)

lemma capitals_castable: "is_ObjectId_string uA_capitals" "uA_capitals \<noteq> toString uA"
  by (simp_all add: is_ObjectId_string_def hex_digit_def uA_capitals_def js_def toString_def
      uA_def)

lemma added_ids:
  assumes "list_all canonical new"
  shows "ObjectId ` (set new - toString ` set old) = ObjectId ` set new - set old"
proof -
  have c: "\<And>a. a \<in> set new \<Longrightarrow> canonical a"
    using assms by (simp add: list_all_iff)
  have "ObjectId a \<in> set old \<longleftrightarrow> a \<in> toString ` set old" if "a \<in> set new" for a
  proof
    assume "ObjectId a \<in> set old"
    then have "toString (ObjectId a) \<in> toString ` set old" by (rule imageI)
    then show "a \<in> toString ` set old" using c[OF that] by (simp add: toString_ObjectId)
  next
    assume "a \<in> toString ` set old"
    then obtain i where i: "i \<in> set old" "a = toString i" by blast
    then have "ObjectId a = i" using c[OF that] by (simp add: ObjectId_toString)
    then show "ObjectId a \<in> set old" using i by simp
  qed
  then have 1: "\<And>a. a \<in> set new \<Longrightarrow> (ObjectId a \<in> set old) = (a \<in> toString ` set old)" .
  show ?thesis
  proof (intro set_eqI iffI)
    fix i assume "i \<in> ObjectId ` (set new - toString ` set old)"
    then obtain a where "a \<in> set new" "a \<notin> toString ` set old" "i = ObjectId a" by blast
    then show "i \<in> ObjectId ` set new - set old" using 1 by blast
  next
    fix i assume "i \<in> ObjectId ` set new - set old"
    then obtain a where a: "a \<in> set new" "i = ObjectId a" "ObjectId a \<notin> set old" by blast
    then have "a \<notin> toString ` set old" using 1 by blast
    then show "i \<in> ObjectId ` (set new - toString ` set old)" using a by blast
  qed
qed

lemma removed_ids:
  assumes "list_all canonical new"
  shows "toString ` set old - set new = toString ` (set old - ObjectId ` set new)"
proof -
  have c: "\<And>a. a \<in> set new \<Longrightarrow> canonical a"
    using assms by (simp add: list_all_iff)
  have 1: "(toString i \<in> set new) = (i \<in> ObjectId ` set new)" for i
  proof
    assume n: "toString i \<in> set new"
    then have "ObjectId (toString i) = i" using c by (simp add: ObjectId_toString)
    then show "i \<in> ObjectId ` set new" using n by (metis imageI)
  next
    assume "i \<in> ObjectId ` set new"
    then obtain a where a: "a \<in> set new" "i = ObjectId a" by blast
    then have "toString i = a" using c by (simp add: toString_ObjectId)
    then show "toString i \<in> set new" using a by simp
  qed
  show ?thesis
    using 1 by (auto dest: toString_inj)
qed

subsection \<open>The store primitives\<close>

lemma findByIdAndUpdate_found:
  "findById i store = Some t \<Longrightarrow> (\<And>x. tid (f x) = tid x) \<Longrightarrow>
   fst (findByIdAndUpdate i f store) = Some (f t) \<and>
   findById i (snd (findByIdAndUpdate i f store)) = Some (f t)"
  by (induction store) (auto split: prod.splits)

lemma findByIdAndUpdate_map:
  "(\<And>x. g (f x) = g x) \<Longrightarrow> map g (snd (findByIdAndUpdate i f store)) = map g store"
  by (induction store) (auto split: prod.splits)

lemma tid_push_apply: "tid (push_activities acts (apply_set u d)) = tid d"
  by (simp add: push_activities_def apply_set_def)

lemma updateTask_found:
  assumes "findById taskId store = Some t"
    and "castable_update u" and "castable_parent u" and "valid_update u"
  shows "fst (updateTask now taskId u actorId store) =
           Inr (Some (push_activities (track_changes now actorId t u) (apply_set u t))) \<and>
         findById taskId (snd (updateTask now taskId u actorId store)) =
           Some (push_activities (track_changes now actorId t u) (apply_set u t))"
  using assms
    findByIdAndUpdate_found[of taskId store t
      "\<lambda>d. push_activities (track_changes now actorId t u) (apply_set u d)"]
  by (auto simp: updateTask_def Let_def tid_push_apply split: prod.splits)

lemma updateTask_completedAt:
  "map completedAt (snd (updateTask now taskId u actorId store)) = map completedAt store"
proof -
  have "map completedAt (snd (findByIdAndUpdate taskId
          (\<lambda>d. push_activities acts (apply_set u d)) store)) = map completedAt store" for acts
    by (rule findByIdAndUpdate_map) (simp add: push_activities_def apply_set_def)
  then show ?thesis
    by (simp add: updateTask_def Let_def case_prod_beta split: option.splits)
qed

lemma accepted_status_only:
  "castable_update (status_only Y)" "castable_parent (status_only Y)" "valid_update (status_only Y)"
  by (simp_all add: castable_update_def castable_parent_def valid_update_def status_only_def)

lemma accepted_assignees_only:
  "castable_update (assignees_only as) = list_all is_ObjectId_string as"
  "castable_parent (assignees_only as)" "valid_update (assignees_only as)"
  by (simp_all add: castable_update_def castable_parent_def valid_update_def assignees_only_def)

lemma findById_task0: "findById ''65b000000000000000000001'' [task0] = Some task0"
  by (simp add: task0_def)

lemma ids_distinct: "uA \<noteq> uB" "uA \<noteq> uC" "uB \<noteq> uC"
  by (simp_all add: uA_def uB_def uC_def)

subsection \<open>The completion date\<close>

text \<open>
  \<open>createTask\<close> saves the document, so the \<open>save\<close> middleware runs: a created task has
  a completion date exactly when its status is \<open>done\<close>.
\<close>

lemma createTask_completedAt:
  "createTask new_id now d createdById store = (Inr t, store') \<Longrightarrow>
   (completedAt t \<noteq> None) = (status t = Done)"
  by (auto simp: createTask_def Let_def pre_save_def new_task_def
      split: if_splits option.splits)

lemma completedAt_push_apply:
  "completedAt (push_activities acts (apply_set u t)) = completedAt t \<and>
   status (push_activities acts (apply_set u t)) =
     (case u_status u of None \<Rightarrow> status t | Some s \<Rightarrow> s)"
  by (simp add: push_activities_def apply_set_def)

text \<open>
  C1. After create, a single update and a bulk status update, \<open>completedAt\<close> should be
  non-null exactly when the status is \<open>done\<close>. The two update paths do not keep this:
  they go through \<open>findByIdAndUpdate\<close> and \<open>updateMany\<close>, which write the status and
  leave \<open>completedAt\<close> as it was, whatever the old and the new status are. No call of
  \<open>updateTask\<close> changes the completion date of any task of the store, and an update
  that is carried out returns the task with the proposed status and the old
  completion date. For the task \<open>task0\<close> (status \<open>todo\<close>, no completion date) the
  update \<open>{status: done}\<close> yields the status \<open>done\<close> with no completion date.
\<close>

theorem C1_updates_leave_completedAt:
  assumes "findById taskId store = Some t"
    and "castable_update updates" and "castable_parent updates" and "valid_update updates"
  shows "(\<exists>t'. fst (updateTask now taskId updates actorId store) = Inr (Some t') \<and>
              findById taskId (snd (updateTask now taskId updates actorId store)) = Some t' \<and>
              status t' = (case u_status updates of None \<Rightarrow> status t | Some s \<Rightarrow> s) \<and>
              completedAt t' = completedAt t) \<and>
         map completedAt (snd (updateTask now taskId updates actorId store)) =
           map completedAt store \<and>
         map completedAt (snd (bulkUpdateStatus now taskIds s actorId store)) =
           map completedAt store \<and>
         map status (snd (bulkUpdateStatus now taskIds s actorId store)) =
           map (\<lambda>x. if tid x \<in> set taskIds then s else status x) store"
proof -
  have "map completedAt (snd (bulkUpdateStatus now taskIds s actorId store)) =
          map completedAt store"
    by (simp add: bulkUpdateStatus_def updateMany_def comp_def if_distrib cong: if_cong)
  moreover have "map status (snd (bulkUpdateStatus now taskIds s actorId store)) =
          map (\<lambda>x. if tid x \<in> set taskIds then s else status x) store"
    by (simp add: bulkUpdateStatus_def updateMany_def comp_def if_distrib cong: if_cong)
  moreover have "\<exists>t'. fst (updateTask now taskId updates actorId store) = Inr (Some t') \<and>
              findById taskId (snd (updateTask now taskId updates actorId store)) = Some t' \<and>
              status t' = (case u_status updates of None \<Rightarrow> status t | Some s \<Rightarrow> s) \<and>
              completedAt t' = completedAt t"
    using updateTask_found[OF assms, of now actorId] completedAt_push_apply[of _ updates t]
    by simp
  ultimately show ?thesis
    using updateTask_completedAt[of now taskId updates actorId store] by blast
qed

theorem C1_todo_to_done_witness:
  "findById ''65b000000000000000000001'' [task0] = Some task0 \<and>
   castable_update (status_only Done) \<and> castable_parent (status_only Done) \<and>
   valid_update (status_only Done) \<and>
   (\<exists>t'. fst (updateTask now0 ''65b000000000000000000001'' (status_only Done) uA [task0]) =
            Inr (Some t') \<and>
          status t' = Done \<and> completedAt t' = None) \<and>
   map completedAt (snd (updateTask now0 ''65b000000000000000000001'' (status_only Done) uA [task0])) =
     [None] \<and>
   map status (snd (bulkUpdateStatus now0 [''65b000000000000000000001''] Done uA [task0])) = [Done] \<and>
   map completedAt (snd (bulkUpdateStatus now0 [''65b000000000000000000001''] Done uA [task0])) =
     [None]"
proof -
  have u: "u_status (status_only Done) = Some Done"
    by (simp add: status_only_def)
  have t: "status task0 = Todo" "completedAt task0 = None" "tid task0 = ''65b000000000000000000001''"
    by (simp_all add: task0_def)
  note th = C1_updates_leave_completedAt[OF findById_task0 accepted_status_only[of Done],
      where now = now0 and actorId = uA and taskIds = "[''65b000000000000000000001'']" and s = Done]
  have 1: "\<exists>t'. fst (updateTask now0 ''65b000000000000000000001'' (status_only Done) uA [task0]) =
            Inr (Some t') \<and> status t' = Done \<and> completedAt t' = None"
    using th[THEN conjunct1] by (auto simp: u t)
  have 0: "map completedAt (snd (updateTask now0 ''65b000000000000000000001'' (status_only Done) uA [task0])) =
     [None]"
    using th[THEN conjunct2, THEN conjunct1] by (simp add: t)
  have 2: "map completedAt (snd (bulkUpdateStatus now0 [''65b000000000000000000001''] Done uA [task0])) =
     [None]"
    using th[THEN conjunct2, THEN conjunct2, THEN conjunct1] by (simp add: t)
  have 3: "map status (snd (bulkUpdateStatus now0 [''65b000000000000000000001''] Done uA [task0])) = [Done]"
    using th[THEN conjunct2, THEN conjunct2, THEN conjunct2] by (simp add: t)
  show ?thesis
    using 0 1 2 3 findById_task0 accepted_status_only by blast
qed

subsection \<open>The activities of an update\<close>

lemma track_status_only:
  "Y \<noteq> status t \<Longrightarrow> track_changes now actorId t (status_only Y) =
     [\<lparr> a_type = Status_changed, a_actor = actorId,
        a_description =
          ''Status changed from '' @ dq @ status_str (status t) @ dq @ '' to '' @ dq @
          status_str Y @ dq,
        a_metadata = Some (Status_from_to (status t) Y), a_timestamp = now \<rparr>]"
  by (simp add: track_changes_def status_only_def status_activity_def priority_activity_def
      due_date_activity_def assignee_activities_def general_activity_def)

lemma apply_set_status_only: "apply_set (status_only Y) t = t\<lparr>status := Y\<rparr>"
  by (simp add: apply_set_def status_only_def)

text \<open>
  C2. An update of an existing task whose proposal holds the status alone, with a value
  \<open>Y\<close> other than the current status \<open>X\<close>, appends one activity: it has the type
  \<open>status_changed\<close> and the metadata \<open>{from: X, to: Y}\<close>. No activity of type \<open>updated\<close>
  comes with it. The returned and the stored task are the old one with the new status
  and this one activity more.
\<close>

theorem C2_status_only_update:
  assumes "findById taskId store = Some t" and "Y \<noteq> status t"
  shows "fst (updateTask now taskId (status_only Y) actorId store) =
           Inr (Some (t\<lparr> status := Y,
                          activities := activities t @
                            [\<lparr> a_type = Status_changed, a_actor = actorId,
                               a_description =
                                 ''Status changed from '' @ dq @ status_str (status t) @ dq @
                                 '' to '' @ dq @ status_str Y @ dq,
                               a_metadata = Some (Status_from_to (status t) Y),
                               a_timestamp = now \<rparr>] \<rparr>)) \<and>
         findById taskId (snd (updateTask now taskId (status_only Y) actorId store)) =
           Some (t\<lparr> status := Y,
                    activities := activities t @
                      [\<lparr> a_type = Status_changed, a_actor = actorId,
                         a_description =
                           ''Status changed from '' @ dq @ status_str (status t) @ dq @
                           '' to '' @ dq @ status_str Y @ dq,
                         a_metadata = Some (Status_from_to (status t) Y),
                         a_timestamp = now \<rparr>] \<rparr>)"
  using updateTask_found[OF assms(1) accepted_status_only[of Y],
      where now = now and actorId = actorId] assms(2)
  by (simp add: track_status_only apply_set_status_only push_activities_def)

theorem C2_todo_to_done_witness:
  "findById ''65b000000000000000000001'' [task0] = Some task0 \<and> Done \<noteq> status task0 \<and>
   fst (updateTask now0 ''65b000000000000000000001'' (status_only Done) uA [task0]) =
     Inr (Some (task0\<lparr> status := Done,
                       activities :=
                         [\<lparr> a_type = Status_changed, a_actor = uA,
                            a_description = ''Status changed from '' @ dq @ ''todo'' @ dq @
                                            '' to '' @ dq @ ''done'' @ dq,
                            a_metadata = Some (Status_from_to Todo Done),
                            a_timestamp = now0 \<rparr>] \<rparr>))"
proof -
  have d: "Done \<noteq> status task0" by (simp add: task0_def)
  show ?thesis
    using C2_status_only_update[OF findById_task0 d, of now0 uA] d
    by (simp add: findById_task0 task0_def)
qed

lemma filter_assigned_track:
  "filter (\<lambda>a. a_type a = Assigned) (track_changes now actorId t u) =
   filter (\<lambda>a. a_type a = Assigned) (assignee_activities now actorId t u)"
  by (simp add: track_changes_def Let_def status_activity_def priority_activity_def
      due_date_activity_def general_activity_def split: option.splits)

lemma filter_unassigned_track:
  "filter (\<lambda>a. a_type a = Unassigned) (track_changes now actorId t u) =
   filter (\<lambda>a. a_type a = Unassigned) (assignee_activities now actorId t u)"
  by (simp add: track_changes_def Let_def status_activity_def priority_activity_def
      due_date_activity_def general_activity_def split: option.splits)

lemma filter_assigned_assignee:
  "u_assignees u = Some new \<Longrightarrow>
   filter (\<lambda>a. a_type a = Assigned) (assignee_activities now actorId t u) =
     (if set new - set (map toString (assignees t)) = {} then []
      else [\<lparr> a_type = Assigned, a_actor = actorId, a_description = ''Assignees added'',
              a_metadata =
                Some (Added (filter (\<lambda>a. a \<notin> set (map toString (assignees t))) (sort new))),
              a_timestamp = now \<rparr>])"
  apply (cases "sort (map toString (assignees t)) = sort new")
   apply (simp add: assignee_activities_def Let_def)
   apply (metis set_map set_sort subset_refl)
  apply (auto simp add: assignee_activities_def Let_def filter_empty_conv)
  done

lemma filter_unassigned_assignee:
  "u_assignees u = Some new \<Longrightarrow>
   filter (\<lambda>a. a_type a = Unassigned) (assignee_activities now actorId t u) =
     (if set (map toString (assignees t)) - set new = {} then []
      else [\<lparr> a_type = Unassigned, a_actor = actorId, a_description = ''Assignees removed'',
              a_metadata =
                Some (Removed (filter (\<lambda>a. a \<notin> set new) (sort (map toString (assignees t))))),
              a_timestamp = now \<rparr>])"
  apply (cases "sort (map toString (assignees t)) = sort new")
   apply (simp add: assignee_activities_def Let_def)
   apply (metis set_map set_sort subset_refl)
  apply (auto simp add: assignee_activities_def Let_def filter_empty_conv)
  done

lemma swap_scenario:
  fixes A :: "'a :: linorder"
  assumes "distinct [A, B, C]"
  shows "filter (\<lambda>a. a \<notin> set [A, B]) (sort [B, C]) = [C] \<and>
         filter (\<lambda>a. a \<notin> set [B, C]) (sort [A, B]) = [A]"
  using assms by auto

text \<open>
  C9. An update that proposes assignees appends at most one activity of type \<open>assigned\<close>
  and at most one of type \<open>unassigned\<close>, and the two should list the two sides of the
  symmetric difference of the old and the proposed set of identifiers. The code
  compares the proposed strings, as they were sent, with the renderings of the old
  identifiers: \<open>assigned\<close> is there exactly when some proposed string is no rendering of
  an old identifier, and lists these strings; \<open>unassigned\<close> is there exactly when the
  rendering of some old identifier is not proposed, and lists those. For a proposal in
  the canonical spelling this is the comparison of the identifiers, and for the old
  assignees \<open>[A, B]\<close> and the proposal \<open>[B, C]\<close> so spelled, with \<open>A\<close>, \<open>B\<close>, \<open>C\<close> distinct,
  the lists are \<open>[C]\<close> and \<open>[A]\<close>. A proposal that spells an identifier with capital
  letters is taken too and names the same identifier, but it is another string: for
  the assignees \<open>[uA, uB]\<close> and the proposal of \<open>uA\<close> in capitals and \<open>uB\<close>, the set of
  identifiers stays as it is, and yet the update appends an activity \<open>assigned\<close> with
  the capital spelling and an activity \<open>unassigned\<close> with \<open>uA\<close>.
\<close>

theorem C9_assignee_activities:
  assumes "findById taskId store = Some t"
      and "castable_update updates" and "castable_parent updates" and "valid_update updates"
      and "u_assignees updates = Some new"
  shows "\<exists>t' appended.
           fst (updateTask now taskId updates actorId store) = Inr (Some t') \<and>
           findById taskId (snd (updateTask now taskId updates actorId store)) = Some t' \<and>
           activities t' = activities t @ appended \<and>
           assignees t' = map ObjectId (sort new) \<and>
           filter (\<lambda>a. a_type a = Assigned) appended =
             (if set new - set (map toString (assignees t)) = {} then []
              else [\<lparr> a_type = Assigned, a_actor = actorId,
                      a_description = ''Assignees added'',
                      a_metadata =
                        Some (Added (filter (\<lambda>a. a \<notin> set (map toString (assignees t)))
                                       (sort new))),
                      a_timestamp = now \<rparr>]) \<and>
           filter (\<lambda>a. a_type a = Unassigned) appended =
             (if set (map toString (assignees t)) - set new = {} then []
              else [\<lparr> a_type = Unassigned, a_actor = actorId,
                      a_description = ''Assignees removed'',
                      a_metadata =
                        Some (Removed (filter (\<lambda>a. a \<notin> set new)
                                         (sort (map toString (assignees t))))),
                      a_timestamp = now \<rparr>]) \<and>
           set (filter (\<lambda>a. a \<notin> set (map toString (assignees t))) (sort new)) =
             set new - set (map toString (assignees t)) \<and>
           set (filter (\<lambda>a. a \<notin> set new) (sort (map toString (assignees t)))) =
             set (map toString (assignees t)) - set new \<and>
           (list_all canonical new \<longrightarrow>
              ObjectId ` (set new - set (map toString (assignees t))) =
                set (map ObjectId new) - set (assignees t) \<and>
              set (map toString (assignees t)) - set new =
                toString ` (set (assignees t) - set (map ObjectId new))) \<and>
           (assignees t = [A, B] \<and> new = [toString B, toString C] \<and> distinct [A, B, C] \<longrightarrow>
              filter (\<lambda>a. a \<notin> set (map toString (assignees t))) (sort new) = [toString C] \<and>
              filter (\<lambda>a. a \<notin> set new) (sort (map toString (assignees t))) = [toString A])"
proof -
  let ?appended = "track_changes now actorId t updates"
  let ?t' = "push_activities ?appended (apply_set updates t)"
  have 1: "fst (updateTask now taskId updates actorId store) = Inr (Some ?t') \<and>
           findById taskId (snd (updateTask now taskId updates actorId store)) = Some ?t'"
    using updateTask_found[OF assms(1-4)] by simp
  have 2: "activities ?t' = activities t @ ?appended"
    by (simp add: push_activities_def apply_set_def)
  have as: "assignees ?t' = map ObjectId (sort new)"
    by (simp add: push_activities_def apply_set_def assms(5))
  have 3: "set (filter (\<lambda>a. a \<notin> set (map toString (assignees t))) (sort new)) =
             set new - set (map toString (assignees t)) \<and>
           set (filter (\<lambda>a. a \<notin> set new) (sort (map toString (assignees t)))) =
             set (map toString (assignees t)) - set new"
    by auto
  have 4: "assignees t = [A, B] \<and> new = [toString B, toString C] \<and> distinct [A, B, C] \<longrightarrow>
              filter (\<lambda>a. a \<notin> set (map toString (assignees t))) (sort new) = [toString C] \<and>
              filter (\<lambda>a. a \<notin> set new) (sort (map toString (assignees t))) = [toString A]"
  proof
    assume a: "assignees t = [A, B] \<and> new = [toString B, toString C] \<and> distinct [A, B, C]"
    then have "distinct [toString A, toString B, toString C]"
      by (auto dest: toString_inj)
    from swap_scenario[OF this] a
    show "filter (\<lambda>a. a \<notin> set (map toString (assignees t))) (sort new) = [toString C] \<and>
          filter (\<lambda>a. a \<notin> set new) (sort (map toString (assignees t))) = [toString A]"
      by simp
  qed
  have 5: "list_all canonical new \<longrightarrow>
              ObjectId ` (set new - set (map toString (assignees t))) =
                set (map ObjectId new) - set (assignees t) \<and>
              set (map toString (assignees t)) - set new =
                toString ` (set (assignees t) - set (map ObjectId new))"
    using added_ids[of new "assignees t"] removed_ids[of new "assignees t"] by simp
  show ?thesis
    apply (rule exI[of _ ?t'])
    apply (rule exI[of _ ?appended])
    apply (intro conjI)
             apply (rule 1[THEN conjunct1])
            apply (rule 1[THEN conjunct2])
           apply (rule 2)
          apply (rule as)
         apply (simp only: filter_assigned_track filter_assigned_assignee[OF assms(5)])
        apply (simp only: filter_unassigned_track filter_unassigned_assignee[OF assms(5)])
       apply (rule 3[THEN conjunct1])
      apply (rule 3[THEN conjunct2])
     apply (rule 5)
    apply (rule 4)
    done
qed

theorem C9_swap_and_capitals_witness:
  "findById ''65b000000000000000000001'' [task0] = Some task0 \<and>
   assignees task0 = [uA, uB] \<and> distinct [uA, uB, uC] \<and>
   castable_update (assignees_only [toString uB, toString uC]) \<and>
   castable_parent (assignees_only [toString uB, toString uC]) \<and>
   valid_update (assignees_only [toString uB, toString uC]) \<and>
   list_all canonical [toString uB, toString uC] \<and>
   (\<exists>t'. fst (updateTask now0 ''65b000000000000000000001''
                 (assignees_only [toString uB, toString uC]) uA [task0]) = Inr (Some t') \<and>
          filter (\<lambda>a. a_type a = Assigned) (activities t') =
            [\<lparr> a_type = Assigned, a_actor = uA, a_description = ''Assignees added'',
               a_metadata = Some (Added [toString uC]), a_timestamp = now0 \<rparr>] \<and>
          filter (\<lambda>a. a_type a = Unassigned) (activities t') =
            [\<lparr> a_type = Unassigned, a_actor = uA, a_description = ''Assignees removed'',
               a_metadata = Some (Removed [toString uA]), a_timestamp = now0 \<rparr>]) \<and>
   castable_update (assignees_only [uA_capitals, toString uB]) \<and>
   castable_parent (assignees_only [uA_capitals, toString uB]) \<and>
   valid_update (assignees_only [uA_capitals, toString uB]) \<and>
   set (map ObjectId [uA_capitals, toString uB]) = set (assignees task0) \<and>
   (\<exists>t'. fst (updateTask now0 ''65b000000000000000000001''
                 (assignees_only [uA_capitals, toString uB]) uA [task0]) = Inr (Some t') \<and>
          assignees t' = [uA, uB] \<and>
          filter (\<lambda>a. a_type a = Assigned) (activities t') =
            [\<lparr> a_type = Assigned, a_actor = uA, a_description = ''Assignees added'',
               a_metadata = Some (Added [uA_capitals]), a_timestamp = now0 \<rparr>] \<and>
          filter (\<lambda>a. a_type a = Unassigned) (activities t') =
            [\<lparr> a_type = Unassigned, a_actor = uA, a_description = ''Assignees removed'',
               a_metadata = Some (Removed [toString uA]), a_timestamp = now0 \<rparr>])"
proof -
  let ?i = "''65b000000000000000000001''"
  let ?p = "[toString uB, toString uC]"
  let ?q = "[uA_capitals, toString uB]"
  have b: "assignees task0 = [uA, uB]" and b': "activities task0 = []"
    by (simp_all add: task0_def)
  have c: "distinct [uA, uB, uC]"
    using ids_distinct by simp
  have sp: "toString uA \<noteq> toString uB" "toString uA \<noteq> toString uC" "toString uB \<noteq> toString uC"
    using ids_distinct by (auto dest: toString_inj)
  have cp: "list_all canonical ?p"
    by (simp add: canonical_ids)
  have ap: "castable_update (assignees_only ?p)" "castable_parent (assignees_only ?p)"
    "valid_update (assignees_only ?p)"
    by (simp_all add: accepted_assignees_only canonical_castable canonical_ids)
  have aq: "castable_update (assignees_only ?q)" "castable_parent (assignees_only ?q)"
    "valid_update (assignees_only ?q)"
    by (simp_all add: accepted_assignees_only canonical_castable canonical_ids capitals_castable)
  have up: "u_assignees (assignees_only ?p) = Some ?p" and uq: "u_assignees (assignees_only ?q) = Some ?q"
    by (simp_all add: assignees_only_def)
  have ids: "set (map ObjectId ?q) = set (assignees task0)"
    by (simp add: b ObjectId_capitals ObjectId_ids)
  have cu: "uA_capitals \<noteq> toString uA" "uA_capitals \<noteq> toString uB"
    by (simp_all add: uA_capitals_def js_def toString_def uA_def uB_def)
  have sq: "sort ?q = ?q"
    by (simp add: uA_capitals_def js_def toString_def uB_def)
  have dp: "(set ?p - set (map toString (assignees task0)) = {}) = False"
           "(set (map toString (assignees task0)) - set ?p = {}) = False"
    using sp by (auto simp: b)
  have dq: "(set ?q - set (map toString (assignees task0)) = {}) = False"
           "(set (map toString (assignees task0)) - set ?q = {}) = False"
    using sp cu by (auto simp: b)
  have fq: "filter (\<lambda>a. a \<notin> set (map toString (assignees task0))) (sort ?q) = [uA_capitals]"
           "filter (\<lambda>a. a \<notin> set ?q) (sort (map toString (assignees task0))) = [toString uA]"
    using sp cu by (auto simp: b sq)
  from C9_assignee_activities[OF findById_task0 ap up,
      where now = now0 and actorId = uA and A = uA and B = uB and C = uC]
  obtain t' appended where
    r1: "fst (updateTask now0 ?i (assignees_only ?p) uA [task0]) = Inr (Some t')"
    and r2: "activities t' = activities task0 @ appended"
    and r3: "filter (\<lambda>a. a_type a = Assigned) appended =
          (if set ?p - set (map toString (assignees task0)) = {} then []
           else [\<lparr> a_type = Assigned, a_actor = uA, a_description = ''Assignees added'',
             a_metadata = Some (Added (filter (\<lambda>a. a \<notin> set (map toString (assignees task0)))
                                         (sort ?p))),
             a_timestamp = now0 \<rparr>])"
    and r4: "filter (\<lambda>a. a_type a = Unassigned) appended =
          (if set (map toString (assignees task0)) - set ?p = {} then []
           else [\<lparr> a_type = Unassigned, a_actor = uA, a_description = ''Assignees removed'',
             a_metadata = Some (Removed (filter (\<lambda>a. a \<notin> set ?p)
                                           (sort (map toString (assignees task0))))),
             a_timestamp = now0 \<rparr>])"
    and r5: "assignees task0 = [uA, uB] \<and> ?p = [toString uB, toString uC] \<and> distinct [uA, uB, uC] \<longrightarrow>
          filter (\<lambda>a. a \<notin> set (map toString (assignees task0))) (sort ?p) = [toString uC] \<and>
          filter (\<lambda>a. a \<notin> set ?p) (sort (map toString (assignees task0))) = [toString uA]"
    by blast
  have e: "filter (\<lambda>a. a \<notin> set (map toString (assignees task0))) (sort ?p) = [toString uC]"
          "filter (\<lambda>a. a \<notin> set ?p) (sort (map toString (assignees task0))) = [toString uA]"
    using r5 b c by blast+
  have f3: "filter (\<lambda>a. a_type a = Assigned) (activities t') =
            [\<lparr> a_type = Assigned, a_actor = uA, a_description = ''Assignees added'',
               a_metadata = Some (Added [toString uC]), a_timestamp = now0 \<rparr>]"
    using r3 by (simp only: r2 b' dp e if_False append_Nil)
  have f4: "filter (\<lambda>a. a_type a = Unassigned) (activities t') =
            [\<lparr> a_type = Unassigned, a_actor = uA, a_description = ''Assignees removed'',
               a_metadata = Some (Removed [toString uA]), a_timestamp = now0 \<rparr>]"
    using r4 by (simp only: r2 b' dp e if_False append_Nil)
  have P: "\<exists>t'. fst (updateTask now0 ?i (assignees_only ?p) uA [task0]) = Inr (Some t') \<and>
          filter (\<lambda>a. a_type a = Assigned) (activities t') =
            [\<lparr> a_type = Assigned, a_actor = uA, a_description = ''Assignees added'',
               a_metadata = Some (Added [toString uC]), a_timestamp = now0 \<rparr>] \<and>
          filter (\<lambda>a. a_type a = Unassigned) (activities t') =
            [\<lparr> a_type = Unassigned, a_actor = uA, a_description = ''Assignees removed'',
               a_metadata = Some (Removed [toString uA]), a_timestamp = now0 \<rparr>]"
    using r1 f3 f4 by blast
  from C9_assignee_activities[OF findById_task0 aq uq,
      where now = now0 and actorId = uA and A = uA and B = uB and C = uC]
  obtain t'' appended' where
    s1: "fst (updateTask now0 ?i (assignees_only ?q) uA [task0]) = Inr (Some t'')"
    and s2: "activities t'' = activities task0 @ appended'"
    and s2': "assignees t'' = map ObjectId (sort ?q)"
    and s3: "filter (\<lambda>a. a_type a = Assigned) appended' =
          (if set ?q - set (map toString (assignees task0)) = {} then []
           else [\<lparr> a_type = Assigned, a_actor = uA, a_description = ''Assignees added'',
             a_metadata = Some (Added (filter (\<lambda>a. a \<notin> set (map toString (assignees task0)))
                                         (sort ?q))),
             a_timestamp = now0 \<rparr>])"
    and s4: "filter (\<lambda>a. a_type a = Unassigned) appended' =
          (if set (map toString (assignees task0)) - set ?q = {} then []
           else [\<lparr> a_type = Unassigned, a_actor = uA, a_description = ''Assignees removed'',
             a_metadata = Some (Removed (filter (\<lambda>a. a \<notin> set ?q)
                                           (sort (map toString (assignees task0))))),
             a_timestamp = now0 \<rparr>])"
    by blast
  have g2: "assignees t'' = [uA, uB]"
    using s2' by (simp only: sq list.map ObjectId_capitals ObjectId_ids)
  have g3: "filter (\<lambda>a. a_type a = Assigned) (activities t'') =
            [\<lparr> a_type = Assigned, a_actor = uA, a_description = ''Assignees added'',
               a_metadata = Some (Added [uA_capitals]), a_timestamp = now0 \<rparr>]"
    using s3 by (simp only: s2 b' dq fq if_False append_Nil)
  have g4: "filter (\<lambda>a. a_type a = Unassigned) (activities t'') =
            [\<lparr> a_type = Unassigned, a_actor = uA, a_description = ''Assignees removed'',
               a_metadata = Some (Removed [toString uA]), a_timestamp = now0 \<rparr>]"
    using s4 by (simp only: s2 b' dq fq if_False append_Nil)
  have Q: "\<exists>t'. fst (updateTask now0 ?i (assignees_only ?q) uA [task0]) = Inr (Some t') \<and>
          assignees t' = [uA, uB] \<and>
          filter (\<lambda>a. a_type a = Assigned) (activities t') =
            [\<lparr> a_type = Assigned, a_actor = uA, a_description = ''Assignees added'',
               a_metadata = Some (Added [uA_capitals]), a_timestamp = now0 \<rparr>] \<and>
          filter (\<lambda>a. a_type a = Unassigned) (activities t') =
            [\<lparr> a_type = Unassigned, a_actor = uA, a_description = ''Assignees removed'',
               a_metadata = Some (Removed [toString uA]), a_timestamp = now0 \<rparr>]"
    using s1 g2 g3 g4 by blast
  show ?thesis
    using findById_task0 b c ap cp P aq ids Q by blast
qed

section \<open>Properties of the message service\<close>

subsection \<open>Updates by identifier\<close>

lemma updateOne_none: "(\<And>x. x \<in> set ds \<Longrightarrow> \<not> q x) \<Longrightarrow> updateOne q f ds = (0, ds)"
  by (induction ds) auto

lemma map_other_ids:
  "i \<notin> mid ` set store \<Longrightarrow> map (\<lambda>x. if mid x = i then f x else x) store = store"
  by (induction store) auto

lemma updateOne_found:
  "distinct (map mid store) \<Longrightarrow> findMessageById i store = Some m \<Longrightarrow>
   updateOne (\<lambda>x. mid x = i \<and> q x) f store =
     (if q m then ((if f m = m then 0 else 1), map (\<lambda>x. if mid x = i then f x else x) store)
      else (0, store))"
proof (induction store)
  case Nil
  then show ?case by simp
next
  case (Cons a store)
  show ?case
  proof (cases "mid a = i")
    case True
    then have m: "m = a" using Cons.prems(2) by simp
    have none: "i \<notin> mid ` set store" using Cons.prems(1) True by auto
    then have "updateOne (\<lambda>x. mid x = i \<and> q x) f store = (0, store)"
      by (intro updateOne_none) auto
    with True m none show ?thesis by (simp add: map_other_ids)
  next
    case False
    with Cons show ?thesis by simp
  qed
qed










lemma updateOne_unmatched:
  "distinct (map mid store) \<Longrightarrow> findMessageById i store = Some m \<Longrightarrow> \<not> q m \<Longrightarrow>
   updateOne (\<lambda>x. mid x = i \<and> q x) f store = (0, store)"
  by (simp add: updateOne_found)

subsection \<open>Sending a message\<close>

lemma trim_idem: "trim (trim s) = trim s"
proof -
  define a where "a = dropWhile is_space s"
  define t where "t = rev (dropWhile is_space (rev a))"
  have split: "a = t @ rev (takeWhile is_space (rev a))"
    unfolding t_def by (metis rev_append rev_rev_ident takeWhile_dropWhile_id)
  have 1: "dropWhile is_space t = t"
  proof (cases "t = []")
    case True
    then show ?thesis by simp
  next
    case False
    then have "hd t = hd a" using split by (metis hd_append2)
    moreover have "a \<noteq> []" using False split by auto
    then have "\<not> is_space (hd a)" unfolding a_def by (rule hd_dropWhile)
    ultimately show ?thesis using False by (simp add: dropWhile_eq_self_iff)
  qed
  have 2: "dropWhile is_space (rev t) = rev t"
    unfolding t_def by simp
  have "trim s = t" by (simp add: trim_def t_def a_def)
  moreover have "trim t = t" by (simp add: trim_def 1 2)
  ultimately show ?thesis by simp
qed

lemma surrogate_pairs_le: "surrogate_pairs x \<le> length x"
  by (induction x rule: surrogate_pairs.induct) auto

lemma isLength_length: "length x \<le> n \<Longrightarrow> isLength n x"
  by (simp add: isLength_def)

text \<open>
  C3. A request to send a message is refused before a message is stored when it
  supplies neither a recipient nor a channel (a channel name of white space only
  counts as none). A request that supplies both is not refused for that: when its
  it passes the validation chain, its identifiers are strings that \<open>ObjectId\<close> takes,
  its content after trimming has at most 5000 code units and its channel name after
  trimming from 1 to 100, the answer is 201 and one message is stored with both fields
  set, the recipient as the identifier that the string names and the channel as the
  trimmed name.
\<close>

theorem C3_recipient_or_channel:
  "(\<not> truthy (s_recipient b) \<and> \<not> truthy (map_option trim (s_channel b)) \<longrightarrow>
      post_message new_id now userId b store = (400, store, [])) \<and>
   (chain_ok (sanitize b) \<and> castable_send b \<and> s_recipient b = Some r \<and>
    s_channel b = Some c \<and> trim c \<noteq> [] \<and> length (trim c) \<le> 100 \<and>
    s_content b = Some t \<and> length (trim t) \<le> 5000 \<longrightarrow>
      (\<exists>m. fst (post_message new_id now userId b store) = 201 \<and>
            fst (snd (post_message new_id now userId b store)) = store @ [m] \<and>
            recipient m = Some (ObjectId r) \<and> channel m = Some (trim c)))"
proof (intro conjI impI)
  assume "\<not> truthy (s_recipient b) \<and> \<not> truthy (map_option trim (s_channel b))"
  then show "post_message new_id now userId b store = (400, store, [])"
    by (simp add: post_message_def Let_def sanitize_def)
next
  assume a: "chain_ok (sanitize b) \<and> castable_send b \<and> s_recipient b = Some r \<and>
    s_channel b = Some c \<and> trim c \<noteq> [] \<and> length (trim c) \<le> 100 \<and>
    s_content b = Some t \<and> length (trim t) \<le> 5000"
  let ?m = "new_message new_id now (sanitize b) userId"
  have a1: "castable_send b" "s_recipient b = Some r" "s_content b = Some t"
    "length (trim t) \<le> 5000" "s_channel b = Some c" "trim c \<noteq> []" "length (trim c) \<le> 100"
    and ch: "chain_ok (sanitize b)"
    using a by blast+
  have cs: "castable_send (sanitize b)"
    using a1(1) by (simp add: castable_send_def sanitize_def)
  have r: "r \<noteq> []"
    using ch a1(2) by (auto simp: chain_ok_def sanitize_def isMongoId_def split: option.splits)
  have t: "trim t \<noteq> []"
    using ch a1(3) by (auto simp: chain_ok_def sanitize_def split: option.splits)
  have v: "valid_message ?m"
    using a1 t by (simp add: valid_message_def new_message_def sanitize_def trim_idem)
  have tr: "truthy (s_recipient (sanitize b))" "truthy (s_channel (sanitize b))"
    using a1 r by (simp_all add: sanitize_def truthy_def)
  have s: "sendMessage new_id now (sanitize b) userId store = (Inr ?m, store @ [?m])"
    using cs v by (simp add: sendMessage_def Let_def)
  have "fst (post_message new_id now userId b store) = 201 \<and>
        fst (snd (post_message new_id now userId b store)) = store @ [?m]"
    unfolding post_message_def Let_def using ch tr by (simp add: s)
  moreover have "recipient ?m = Some (ObjectId r) \<and> channel ?m = Some (trim c)"
    using a1 r by (simp add: new_message_def sanitize_def trim_idem truthy_def)
  ultimately show "\<exists>m. fst (post_message new_id now userId b store) = 201 \<and>
            fst (snd (post_message new_id now userId b store)) = store @ [m] \<and>
            recipient m = Some (ObjectId r) \<and> channel m = Some (trim c)"
    by (intro exI[of _ ?m]) simp
qed

lemma trim_hello: "trim (js ''hello'') = js ''hello''" "trim (js ''general'') = js ''general''"
  by (simp_all add: trim_def is_space_def js_def)

lemma sanitize_req_both: "sanitize req_both = req_both"
  by (simp add: sanitize_def req_both_def trim_hello)

lemma chain_req_both: "chain_ok (sanitize req_both)"
  unfolding sanitize_req_both
  by (simp add: chain_ok_def req_both_def castable_isMongoId canonical_castable canonical_ids
      isLength_def) (simp add: js_def)

lemma castable_req_both: "castable_send req_both"
  by (simp add: castable_send_def req_both_def canonical_castable canonical_ids)

theorem C3_neither_and_both_witness:
  "\<not> truthy (s_recipient req_neither) \<and> \<not> truthy (map_option trim (s_channel req_neither)) \<and>
   post_message ''65c000000000000000000009'' now0 uA req_neither store0 = (400, store0, []) \<and>
   chain_ok (sanitize req_both) \<and> castable_send req_both \<and>
   s_recipient req_both = Some (toString uB) \<and> s_channel req_both = Some (js ''general'') \<and>
   s_content req_both = Some (js ''hello'') \<and>
   (\<exists>m. fst (post_message ''65c000000000000000000009'' now0 uA req_both store0) = 201 \<and>
        fst (snd (post_message ''65c000000000000000000009'' now0 uA req_both store0)) =
          store0 @ [m] \<and>
        recipient m = Some uB \<and> channel m = Some (js ''general''))"
proof -
  have n: "\<not> truthy (s_recipient req_neither) \<and> \<not> truthy (map_option trim (s_channel req_neither))"
    by (simp add: req_neither_def truthy_def)
  have f: "s_recipient req_both = Some (toString uB)" "s_channel req_both = Some (js ''general'')"
    "s_content req_both = Some (js ''hello'')"
    by (simp_all add: req_both_def)
  have g: "trim (js ''general'') \<noteq> []" "length (trim (js ''general'')) \<le> 100"
    "length (trim (js ''hello'')) \<le> 5000"
    by (simp_all add: trim_hello) (simp_all add: js_def)
  have 1: "post_message ''65c000000000000000000009'' now0 uA req_neither store0 = (400, store0, [])"
    using C3_recipient_or_channel[where b = req_neither and store = store0 and now = now0
        and userId = uA and new_id = "''65c000000000000000000009''", THEN conjunct1] n
    by blast
  have "\<exists>m. fst (post_message ''65c000000000000000000009'' now0 uA req_both store0) = 201 \<and>
        fst (snd (post_message ''65c000000000000000000009'' now0 uA req_both store0)) =
          store0 @ [m] \<and>
        recipient m = Some (ObjectId (toString uB)) \<and> channel m = Some (trim (js ''general''))"
    using C3_recipient_or_channel[where b = req_both and store = store0 and now = now0
        and userId = uA and new_id = "''65c000000000000000000009''" and c = "js ''general''"
        and r = "toString uB" and t = "js ''hello''", THEN conjunct2]
      chain_req_both castable_req_both f g
    by blast
  then have 2: "\<exists>m. fst (post_message ''65c000000000000000000009'' now0 uA req_both store0) = 201 \<and>
        fst (snd (post_message ''65c000000000000000000009'' now0 uA req_both store0)) =
          store0 @ [m] \<and>
        recipient m = Some uB \<and> channel m = Some (js ''general'')"
    by (simp only: trim_hello ObjectId_ids)
  show ?thesis using n f chain_req_both castable_req_both 1 2 by blast
qed

theorem C3_both_supplied_counterexample:
  "s_recipient req_both = Some (toString uB) \<and> s_channel req_both = Some (js ''general'') \<and>
   fst (post_message ''65c000000000000000000009'' now0 uA req_both []) = 201 \<and>
   map (\<lambda>m. (mid m, recipient m, channel m))
     (fst (snd (post_message ''65c000000000000000000009'' now0 uA req_both []))) =
     [(''65c000000000000000000009'', Some uB, Some (js ''general''))]"
proof -
  let ?m = "new_message ''65c000000000000000000009'' now0 req_both uA"
  have f: "s_recipient req_both = Some (toString uB)" "s_channel req_both = Some (js ''general'')"
    by (simp_all add: req_both_def)
  have mn: "s_mentions req_both = None"
    by (simp add: req_both_def)
  note sb = sanitize_req_both
  have ch: "chain_ok req_both"
    using chain_req_both by (simp only: sb)
  have tr: "truthy (Some (toString uB))" "truthy (Some (js ''general''))"
    by (simp_all add: truthy_def js_def toString_def uB_def)
  have m: "mid ?m = ''65c000000000000000000009''" "recipient ?m = Some uB"
    "channel ?m = Some (js ''general'')"
    using tr by (simp_all add: new_message_def f trim_hello ObjectId_ids)
  have v: "valid_message ?m"
    by (simp add: valid_message_def new_message_def)
      (simp add: req_both_def trim_hello, simp add: js_def)
  have s: "sendMessage ''65c000000000000000000009'' now0 req_both uA [] = (Inr ?m, [?m])"
    using v castable_req_both by (simp add: sendMessage_def Let_def)
  have "post_message ''65c000000000000000000009'' now0 uA req_both [] =
          (201, [?m], [Emit (To_room (js ''channel:'' @ js ''general'')) (Message_new ?m)])"
    unfolding post_message_def Let_def sb by (simp add: ch tr s f mn)
  then show ?thesis using f m by simp
qed

subsection \<open>Reactions\<close>

lemma store0_ids: "distinct (map mid store0)"
  by (simp add: store0_def m_chan_def m_del_def m_react_def m_own_def)

lemma find_m_react: "findMessageById ''65c000000000000000000003'' store0 = Some m_react"
  by (simp add: store0_def m_chan_def m_del_def m_react_def)


text \<open>
  C6. After \<open>addReaction\<close> for a message, an emoji and a user, the reactions of the
  message should hold an entry of the emoji that lists the user, whatever other emojis
  the user has reacted with. The code does not do this: if the message has an entry of
  the emoji and the user is listed in any entry of the message, neither of the two
  updates matches and the message stays as it is. For a user already listed under
  this emoji that is the no-op of a repeated call; for a user listed under another
  emoji only, the reaction is lost, as for \<open>uB\<close>, who has reacted to \<open>m_react\<close> with
  \<open>:heart:\<close> and now adds \<open>:+1:\<close>.
\<close>

theorem C6_reaction_not_added:
  assumes d: "distinct (map mid store)" and f: "findMessageById i store = Some m"
    and e: "e \<in> set (map emoji (reactions m))"
    and u: "u \<in> set (concat (map users (reactions m)))"
  shows "addReaction i e u store = (Some m, store)"
proof -
  have 1: "updateOne (\<lambda>x. mid x = i \<and> (e \<in> set (map emoji (reactions x)) \<and>
              u \<notin> set (concat (map users (reactions x)))))
            (\<lambda>x. x\<lparr>reactions := push_user e u (reactions x)\<rparr>) store = (0, store)"
    using u by (intro updateOne_unmatched[OF d f]) blast
  have 2: "updateOne (\<lambda>x. mid x = i \<and> e \<notin> set (map emoji (reactions x)))
            (\<lambda>x. x\<lparr>reactions := reactions x @ [\<lparr>emoji = e, users = [u]\<rparr>]\<rparr>) store = (0, store)"
    using e by (intro updateOne_unmatched[OF d f]) blast
  show ?thesis
    unfolding addReaction_def by (simp only: 1 2 prod.case Let_def snd_conv) (simp add: f)
qed

theorem C6_second_emoji_witness:
  "distinct (map mid store0) \<and>
   findMessageById ''65c000000000000000000003'' store0 = Some m_react \<and>
   reactions m_react =
     [\<lparr>emoji = js '':+1:'', users = [uA]\<rparr>, \<lparr>emoji = js '':heart:'', users = [uB]\<rparr>] \<and>
   uB \<noteq> uA \<and>
   addReaction ''65c000000000000000000003'' (js '':+1:'') uB store0 = (Some m_react, store0)"
proof -
  have r: "reactions m_react =
     [\<lparr>emoji = js '':+1:'', users = [uA]\<rparr>, \<lparr>emoji = js '':heart:'', users = [uB]\<rparr>]"
    by (simp add: m_react_def)
  have e: "js '':+1:'' \<in> set (map emoji (reactions m_react))"
    by (simp add: r)
  have u: "uB \<in> set (concat (map users (reactions m_react)))"
    by (simp add: r)
  show ?thesis
    using C6_reaction_not_added[OF store0_ids find_m_react e u] store0_ids find_m_react r
      ids_distinct(1)
    by simp
qed

subsection \<open>Soft-deleted messages\<close>







subsection \<open>Marking a conversation as read\<close>

text \<open>
  C10. \<open>markConversationAsRead\<close> without a channel name and without the identity of a
  counterpart appends an entry of the user to \<open>readBy\<close> of every message of the store
  that has none: the messages of channels and of direct conversations of others, the
  user's own messages and the soft-deleted ones among them. The call is not refused
  and its selection is not empty: \<open>uC\<close> so marks the whole of \<open>store0\<close>.
\<close>

theorem C10_mark_everything_read:
  assumes "\<not> truthy channel_opt" and "\<not> truthy recipientId"
  shows "markConversationAsRead now userId channel_opt recipientId store =
     map (\<lambda>m. if userId \<in> set (map r_user (readBy m)) then m
              else m\<lparr>readBy := readBy m @ [\<lparr>r_user = userId, r_readAt = now\<rparr>]\<rparr>) store"
  using assms
  by (simp add: markConversationAsRead_def updateMany_def readers_def push_read_def)

theorem C10_whole_store_witness:
  "\<not> truthy None \<and>
   channel m_chan = Some (js ''random'') \<and>
   isDeleted m_del \<and> sender m_del = uA \<and> recipient m_del = Some uB \<and> sender m_own = uC \<and>
   markConversationAsRead now0 uC None None store0 =
     [m_chan\<lparr>readBy := [\<lparr>r_user = uC, r_readAt = now0\<rparr>]\<rparr>,
      m_del\<lparr>readBy := [\<lparr>r_user = uC, r_readAt = now0\<rparr>]\<rparr>,
      m_react\<lparr>readBy := [\<lparr>r_user = uC, r_readAt = now0\<rparr>]\<rparr>,
      m_own\<lparr>readBy := [\<lparr>r_user = uC, r_readAt = now0\<rparr>]\<rparr>]"
proof -
  have t: "\<not> truthy None" by (simp add: truthy_def)
  have r: "readBy m_chan = []" "readBy m_del = []" "readBy m_react = []" "readBy m_own = []"
    by (simp_all add: m_chan_def m_del_def m_react_def m_own_def)
  have f: "channel m_chan = Some (js ''random'')" "isDeleted m_del" "sender m_del = uA"
    "recipient m_del = Some uB" "sender m_own = uC"
    by (simp_all add: m_chan_def m_del_def m_own_def)
  show ?thesis
    using C10_mark_everything_read[OF t t, of now0 uC store0] t f
    by (simp add: store0_def r)
qed

subsection \<open>The unread count\<close>

lemma tally_total: "total (fold tally gs r) = total r + sum_list (map snd gs)"
proof (induction gs arbitrary: r)
  case Nil
  then show ?case by simp
next
  case (Cons g gs)
  obtain ch s n where g: "g = ((ch, s), n)" by (metis surj_pair)
  have "total (tally g r) = total r + n"
    by (simp add: g Let_def split: option.splits)
  with Cons.IH[of "tally g r"] show ?case by (simp add: g)
qed

lemma count_list_filter: "Q k \<Longrightarrow> count_list (filter Q ks) k = count_list ks k"
  by (induction ks) auto

lemma group_counts:
  "sum_list (map snd (filter (\<lambda>g. Q (fst g)) (map (\<lambda>k. (k, count_list ks k)) (remdups ks)))) =
   length (filter Q ks)"
proof -
  have "sum_list (map snd (filter (\<lambda>g. Q (fst g)) (map (\<lambda>k. (k, count_list ks k)) (remdups ks)))) =
        sum_list (map (count_list ks) (filter Q (remdups ks)))"
    by (simp add: filter_map comp_def)
  also have "\<dots> = sum (count_list ks) (set (filter Q (remdups ks)))"
    by (simp add: sum_list_distinct_conv_sum_set)
  also have "\<dots> = sum (count_list (filter Q ks)) (set (filter Q ks))"
    by (rule sum.cong) (auto simp: count_list_filter)
  also have "\<dots> = length (filter Q ks)"
    by (rule sum_count_set) auto
  finally show ?thesis .
qed

lemma groups_total:
  "sum_list (map snd (unread_groups u store)) = length (filter (unread_match u) store)"
  using group_counts[of "\<lambda>k. True" "map (\<lambda>m. (channel m, sender m)) (filter (unread_match u) store)"]
  by (simp add: unread_groups_def Let_def)

lemma proto_inherited: "js ''__proto__'' \<in> set inherited"
  by (simp add: inherited_def)

lemma sum_values_upd:
  assumes "finite (dom m)"
  shows "sum_values (m(k \<mapsto> x)) + number (m k) = sum_values m + number (Some x)"
proof -
  let ?v = "\<lambda>m k. number (m k)"
  have fin: "finite (dom m - {k})" using assms by simp
  have a: "sum_values (m(k \<mapsto> x)) = number (Some x) + sum (?v m) (dom m - {k})"
  proof -
    have "dom (m(k \<mapsto> x)) = insert k (dom m - {k})" by auto
    then have "sum_values (m(k \<mapsto> x)) = sum (?v (m(k \<mapsto> x))) (insert k (dom m - {k}))"
      by (simp add: sum_values_def)
    also have "\<dots> = ?v (m(k \<mapsto> x)) k + sum (?v (m(k \<mapsto> x))) (dom m - {k})"
      using fin by (subst sum.insert) auto
    also have "sum (?v (m(k \<mapsto> x))) (dom m - {k}) = sum (?v m) (dom m - {k})"
      by (rule sum.cong) auto
    finally have "sum_values (m(k \<mapsto> x)) =
        ?v (m(k \<mapsto> x)) k + sum (?v m) (dom m - {k})" .
    moreover have "?v (m(k \<mapsto> x)) k = number (Some x)" by simp
    ultimately show ?thesis by (simp only:)
  qed
  have b: "sum_values m = ?v m k + sum (?v m) (dom m - {k})"
  proof (cases "k \<in> dom m")
    case True
    then have "dom m = insert k (dom m - {k})" by auto
    then have "sum_values m = sum (?v m) (insert k (dom m - {k}))"
      by (simp add: sum_values_def)
    also have "\<dots> = ?v m k + sum (?v m) (dom m - {k})"
      using fin by (subst sum.insert) auto
    finally show ?thesis .
  next
    case False
    then have "dom m - {k} = dom m" "m k = None" by auto
    then show ?thesis by (simp add: sum_values_def number_def)
  qed
  show ?thesis using a b by simp
qed

lemma add_count_number:
  "c \<notin> set inherited \<Longrightarrow> own \<noteq> Some Text \<Longrightarrow>
   add_count c own n = Count (number own + n)"
  by (auto simp: add_count_def number_def split: option.splits cell.splits)

lemma tally_sums:
  assumes "finite (dom (byChannel r))" "finite (dom (byConversation r))"
    and "\<forall>k. byChannel r k \<noteq> Some Text"
    and "distinct (map fst gs)"
    and "\<forall>g\<in>set gs. \<forall>c. fst (fst g) = Some c \<longrightarrow> c \<noteq> [] \<and> c \<notin> set inherited"
    and "\<forall>g\<in>set gs. fst (fst g) = None \<longrightarrow> snd (fst g) \<notin> dom (byConversation r)"
  shows "sum_values (byChannel (fold tally gs r)) + sum_values (byConversation (fold tally gs r)) =
         sum_values (byChannel r) + sum_values (byConversation r) + sum_list (map snd gs)"
  using assms
proof (induction gs arbitrary: r)
  case Nil
  then show ?case by simp
next
  case (Cons g gs)
  obtain ch s n where g: "g = ((ch, s), n)" by (metis surj_pair)
  let ?r = "tally g r"
  have step: "finite (dom (byChannel ?r)) \<and> finite (dom (byConversation ?r)) \<and>
              (\<forall>k. byChannel ?r k \<noteq> Some Text) \<and>
              (\<forall>g'\<in>set gs. fst (fst g') = None \<longrightarrow> snd (fst g') \<notin> dom (byConversation ?r)) \<and>
              sum_values (byChannel ?r) + sum_values (byConversation ?r) =
                sum_values (byChannel r) + sum_values (byConversation r) + n"
  proof (cases ch)
    case None
    have new: "byConversation r s = None"
      using Cons.prems(6) by (auto simp: g None)
    have other: "\<forall>g'\<in>set gs. fst (fst g') = None \<longrightarrow> snd (fst g') \<noteq> s"
      using Cons.prems(4) by (force simp: g None)
    have "sum_values ((byConversation r)(s \<mapsto> Count n)) = sum_values (byConversation r) + n"
      using sum_values_upd[OF Cons.prems(2), of s "Count n"] new by (simp add: number_def)
    then show ?thesis
      using Cons.prems other by (auto simp: g None Let_def)
  next
    case (Some c)
    have c: "c \<noteq> []" "c \<notin> set inherited"
      using Cons.prems(5) by (simp_all add: g Some)
    then have p: "c \<noteq> js ''__proto__''"
      using proto_inherited by auto
    have ac: "add_count c (byChannel r c) n = Count (number (byChannel r c) + n)"
      using c Cons.prems(3) by (simp add: add_count_number)
    have "sum_values ((byChannel r)(c \<mapsto> Count (number (byChannel r c) + n))) =
          sum_values (byChannel r) + n"
      using sum_values_upd[OF Cons.prems(1), of c "Count (number (byChannel r c) + n)"]
      by (simp add: number_def)
    then show ?thesis
      using Cons.prems c p by (auto simp: g Some Let_def ac)
  qed
  have "sum_values (byChannel (fold tally gs ?r)) + sum_values (byConversation (fold tally gs ?r)) =
        sum_values (byChannel ?r) + sum_values (byConversation ?r) + sum_list (map snd gs)"
    using step Cons.prems by (intro Cons.IH) auto
  then show ?case using step by (simp add: g)
qed

lemma unread_groups_keys:
  "map fst (unread_groups u store) =
   remdups (map (\<lambda>m. (channel m, sender m)) (filter (unread_match u) store))"
  by (simp add: unread_groups_def Let_def comp_def)

lemma sum_values_empty: "sum_values Map.empty = 0"
  by (simp add: sum_values_def)

lemma unread_sums:
  assumes "list_all (\<lambda>m. case channel m of None \<Rightarrow> True | Some c \<Rightarrow> c \<noteq> [] \<and> c \<notin> set inherited)
             (filter (unread_match u) store)"
  shows "sum_values (byChannel (getUnreadCount u store)) +
         sum_values (byConversation (getUnreadCount u store)) =
         total (getUnreadCount u store)"
proof -
  let ?gs = "unread_groups u store"
  let ?r0 = "\<lparr>total = 0, byChannel = Map.empty, byConversation = Map.empty\<rparr>"
  have d: "distinct (map fst ?gs)" by (simp add: unread_groups_keys)
  have e: "\<forall>g\<in>set ?gs. \<forall>c. fst (fst g) = Some c \<longrightarrow> c \<noteq> [] \<and> c \<notin> set inherited"
  proof
    fix g assume "g \<in> set ?gs"
    then have "fst g \<in> set (map fst ?gs)" by simp
    then obtain m where "m \<in> set (filter (unread_match u) store)" "fst g = (channel m, sender m)"
      unfolding unread_groups_keys by auto
    then show "\<forall>c. fst (fst g) = Some c \<longrightarrow> c \<noteq> [] \<and> c \<notin> set inherited"
      using assms by (auto simp: list_all_iff split: option.splits)
  qed
  have "sum_values (byChannel (fold tally ?gs ?r0)) + sum_values (byConversation (fold tally ?gs ?r0)) =
        sum_values (byChannel ?r0) + sum_values (byConversation ?r0) + sum_list (map snd ?gs)"
    using d e by (intro tally_sums) auto
  then show ?thesis
    by (simp add: getUnreadCount_def tally_total sum_values_empty)
qed

lemma unread_total:
  "total (getUnreadCount u store) = length (filter (unread_match u) store)"
  by (simp add: getUnreadCount_def tally_total groups_total)

lemma filter_no_key: "k \<notin> set (map f gs) \<Longrightarrow> filter (\<lambda>g. f g = k) gs = []"
  by (induction gs) auto

lemma tally_byChannel:
  assumes "c \<noteq> []" and "c \<notin> set inherited" and "byChannel r c \<noteq> Some Text"
  shows "byChannel (fold tally gs r) c =
     (if Some c \<in> set (map (\<lambda>g. fst (fst g)) gs) then
        Some (Count (number (byChannel r c) +
                     sum_list (map snd (filter (\<lambda>g. fst (fst g) = Some c) gs))))
      else byChannel r c)"
  using assms(3)
proof (induction gs arbitrary: r)
  case Nil
  then show ?case by simp
next
  case (Cons g gs)
  obtain ch s n where g: "g = ((ch, s), n)" by (metis surj_pair)
  have p: "c \<noteq> js ''__proto__''"
    using assms(2) proto_inherited by auto
  have ac: "add_count c (byChannel r c) n = Count (number (byChannel r c) + n)"
    using assms(2) Cons.prems by (simp add: add_count_number)
  have step: "byChannel (tally g r) c =
      (if ch = Some c then Some (Count (number (byChannel r c) + n)) else byChannel r c)"
    using assms(1) p by (cases ch) (auto simp: g Let_def ac)
  have inv: "byChannel (tally g r) c \<noteq> Some Text"
    using step Cons.prems by (simp split: if_splits)
  note IH = Cons.IH[OF inv]
  show ?case
  proof (cases "ch = Some c")
    case True
    show ?thesis
    proof (cases "Some c \<in> set (map (\<lambda>g. fst (fst g)) gs)")
      case in_rest: True
      then show ?thesis using True IH step by (simp add: g number_def)
    next
      case False
      then have "filter (\<lambda>g. fst (fst g) = Some c) gs = []" by (rule filter_no_key)
      then show ?thesis using True False IH step by (simp add: g)
    qed
  next
    case False
    then show ?thesis using IH step by (auto simp: g)
  qed
qed

lemma tally_byConversation:
  assumes "distinct (map fst gs)" and "\<forall>g\<in>set gs. fst (fst g) \<noteq> Some []"
  shows "byConversation (fold tally gs r) s =
     (if (None, s) \<in> set (map fst gs) then
        Some (Count (sum_list (map snd (filter (\<lambda>g. fst g = (None, s)) gs))))
      else byConversation r s)"
  using assms
proof (induction gs arbitrary: r)
  case Nil
  then show ?case by simp
next
  case (Cons g gs)
  obtain ch s' n where g: "g = ((ch, s'), n)" by (metis surj_pair)
  have ch: "ch \<noteq> Some []" using Cons.prems(2) by (simp add: g)
  have step: "byConversation (tally g r) s =
      (if ch = None \<and> s' = s then Some (Count n) else byConversation r s)"
    using ch by (cases ch) (auto simp: g Let_def)
  have IH: "byConversation (fold tally gs (tally g r)) s =
     (if (None, s) \<in> set (map fst gs) then
        Some (Count (sum_list (map snd (filter (\<lambda>g. fst g = (None, s)) gs))))
      else byConversation (tally g r) s)"
    using Cons.prems by (intro Cons.IH) auto
  show ?case
  proof (cases "ch = None \<and> s' = s")
    case True
    then have no: "(None, s) \<notin> set (map fst gs)" using Cons.prems(1) by (auto simp: g)
    then have "filter (\<lambda>g. fst g = (None, s)) gs = []" by (rule filter_no_key)
    then show ?thesis using True no IH step by (simp add: g)
  next
    case False
    then show ?thesis using IH step by (auto simp: g)
  qed
qed

lemma unread_byChannel:
  assumes "c \<noteq> []" and "c \<notin> set inherited"
  shows "byChannel (getUnreadCount u store) c =
     (let n = length (filter (\<lambda>m. unread_match u m \<and> channel m = Some c) store)
      in if n = 0 then None else Some (Count n))"
proof -
  let ?ks = "map (\<lambda>m. (channel m, sender m)) (filter (unread_match u) store)"
  let ?r0 = "\<lparr>total = 0, byChannel = Map.empty, byConversation = Map.empty\<rparr>"
  have cnt: "sum_list (map snd (filter (\<lambda>g. fst (fst g) = Some c) (unread_groups u store))) =
             length (filter (\<lambda>m. unread_match u m \<and> channel m = Some c) store)"
    using group_counts[of "\<lambda>k. fst k = Some c" ?ks]
    by (simp add: unread_groups_def Let_def filter_map comp_def conj_commute)
  have mem: "Some c \<in> set (map (\<lambda>g. fst (fst g)) (unread_groups u store)) \<longleftrightarrow>
             length (filter (\<lambda>m. unread_match u m \<and> channel m = Some c) store) \<noteq> 0"
    by (auto simp: unread_groups_def Let_def filter_empty_conv image_iff)
  have r0: "byChannel ?r0 c \<noteq> Some Text" by simp
  show ?thesis
    unfolding getUnreadCount_def
    by (simp add: tally_byChannel[OF assms r0] cnt mem Let_def number_def del: set_map)
qed

lemma unread_byConversation:
  assumes "list_all (\<lambda>m. channel m \<noteq> Some []) (filter (unread_match u) store)"
  shows "byConversation (getUnreadCount u store) s =
     (let n = length (filter (\<lambda>m. unread_match u m \<and> channel m = None \<and> sender m = s) store)
      in if n = 0 then None else Some (Count n))"
proof -
  let ?ks = "map (\<lambda>m. (channel m, sender m)) (filter (unread_match u) store)"
  let ?gs = "unread_groups u store"
  have d: "distinct (map fst ?gs)" by (simp add: unread_groups_keys)
  have e: "\<forall>g\<in>set ?gs. fst (fst g) \<noteq> Some []"
  proof
    fix g assume "g \<in> set ?gs"
    then have "fst g \<in> set (map fst ?gs)" by simp
    then obtain m where "m \<in> set (filter (unread_match u) store)" "fst g = (channel m, sender m)"
      unfolding unread_groups_keys by auto
    then show "fst (fst g) \<noteq> Some []" using assms by (auto simp: list_all_iff)
  qed
  have cnt: "sum_list (map snd (filter (\<lambda>g. fst g = (None, s)) ?gs)) =
             length (filter (\<lambda>m. unread_match u m \<and> channel m = None \<and> sender m = s) store)"
    using group_counts[of "\<lambda>k. k = (None, s)" ?ks]
    by (simp add: unread_groups_def Let_def filter_map comp_def conj_commute)
  have mem: "(None, s) \<in> set (map fst ?gs) \<longleftrightarrow>
             length (filter (\<lambda>m. unread_match u m \<and> channel m = None \<and> sender m = s) store) \<noteq> 0"
    unfolding unread_groups_keys by (auto simp: filter_empty_conv image_iff)
  show ?thesis
    unfolding getUnreadCount_def
    by (simp add: tally_byConversation[OF d e] cnt mem Let_def del: set_map)
qed

text \<open>
  C8. The total unread count of a user is the number of the messages that are not
  soft-deleted, not sent by the user, addressed to the user and without an entry of
  the user in \<open>readBy\<close>. Addressed to the user is a direct message to the user and
  every message with a channel, whatever the channel: the store knows no membership
  of channels, so the count is the one of the specification for users who participate
  in every channel. The entry of a channel name that is not empty and not the name of
  a property of \<open>Object.prototype\<close> is the number of the counted messages of that
  channel. When no counted message has the empty string as its channel, the entry of
  a sender is the number of the counted messages of that sender without a channel;
  and when moreover no counted message has the name of a property of
  \<open>Object.prototype\<close> as its channel, the entries of both breakdowns add up to the
  total.
\<close>

theorem C8_unread_count:
  "total (getUnreadCount u store) =
     length (filter (\<lambda>m. \<not> isDeleted m \<and> sender m \<noteq> u \<and>
                        (recipient m = Some u \<or> channel m \<noteq> None) \<and>
                        u \<notin> set (map r_user (readBy m))) store) \<and>
   total (getUnreadCount u store) = spec_unread_count (\<lambda>v c. True) u store \<and>
   (c \<noteq> [] \<and> c \<notin> set inherited \<longrightarrow>
      byChannel (getUnreadCount u store) c =
        (let n = length (filter (\<lambda>m. unread_match u m \<and> channel m = Some c) store)
         in if n = 0 then None else Some (Count n))) \<and>
   (list_all (\<lambda>m. channel m \<noteq> Some []) (filter (unread_match u) store) \<longrightarrow>
      byConversation (getUnreadCount u store) s =
        (let n = length (filter (\<lambda>m. unread_match u m \<and> channel m = None \<and> sender m = s) store)
         in if n = 0 then None else Some (Count n))) \<and>
   (list_all (\<lambda>m. case channel m of None \<Rightarrow> True | Some c \<Rightarrow> c \<noteq> [] \<and> c \<notin> set inherited)
      (filter (unread_match u) store) \<longrightarrow>
      sum_values (byChannel (getUnreadCount u store)) +
      sum_values (byConversation (getUnreadCount u store)) = total (getUnreadCount u store))"
proof -
  have p: "unread_match u = (\<lambda>m. \<not> isDeleted m \<and> sender m \<noteq> u \<and>
                        (recipient m = Some u \<or> channel m \<noteq> None) \<and>
                        u \<notin> set (map r_user (readBy m)))"
    by (simp add: unread_match_def readers_def fun_eq_iff)
  have q: "spec_unread_count (\<lambda>v c. True) u store = length (filter (unread_match u) store)"
    unfolding spec_unread_count_def p
    by (rule arg_cong[where f = length], rule filter_cong) (auto split: option.splits)
  have 1: "total (getUnreadCount u store) = length (filter (unread_match u) store)"
    by (rule unread_total)
  have 2: "total (getUnreadCount u store) =
     length (filter (\<lambda>m. \<not> isDeleted m \<and> sender m \<noteq> u \<and>
                        (recipient m = Some u \<or> channel m \<noteq> None) \<and>
                        u \<notin> set (map r_user (readBy m))) store)"
    using 1 by (simp only: p)
  have 3: "c \<noteq> [] \<and> c \<notin> set inherited \<longrightarrow>
      byChannel (getUnreadCount u store) c =
        (let n = length (filter (\<lambda>m. unread_match u m \<and> channel m = Some c) store)
         in if n = 0 then None else Some (Count n))"
    using unread_byChannel[of c u store] by blast
  have 4: "list_all (\<lambda>m. channel m \<noteq> Some []) (filter (unread_match u) store) \<longrightarrow>
      byConversation (getUnreadCount u store) s =
        (let n = length (filter (\<lambda>m. unread_match u m \<and> channel m = None \<and> sender m = s) store)
         in if n = 0 then None else Some (Count n))"
    using unread_byConversation[of u store s] by blast
  have 5: "list_all (\<lambda>m. case channel m of None \<Rightarrow> True | Some c \<Rightarrow> c \<noteq> [] \<and> c \<notin> set inherited)
      (filter (unread_match u) store) \<longrightarrow>
      sum_values (byChannel (getUnreadCount u store)) +
      sum_values (byConversation (getUnreadCount u store)) = total (getUnreadCount u store)"
    using unread_sums[of u store] by blast
  have 6: "total (getUnreadCount u store) = spec_unread_count (\<lambda>v c. True) u store"
    using 1 q by simp
  show ?thesis
    using 2 6 3 4 5 by (intro conjI)
qed

lemma unread_uB: "filter (unread_match uB) store0 = [m_chan, m_react, m_own]"
  by (simp add: store0_def unread_match_def readers_def m_chan_def m_del_def m_react_def
      m_own_def uA_def uB_def uC_def)

lemma names_not_inherited: "js ''random'' \<notin> set inherited" "js ''general'' \<notin> set inherited"
  by (simp_all add: inherited_def js_def)

theorem C8_store0_witness:
  "js ''random'' \<noteq> [] \<and> js ''random'' \<notin> set inherited \<and>
   list_all (\<lambda>m. channel m \<noteq> Some []) (filter (unread_match uB) store0) \<and>
   list_all (\<lambda>m. case channel m of None \<Rightarrow> True | Some c \<Rightarrow> c \<noteq> [] \<and> c \<notin> set inherited)
     (filter (unread_match uB) store0) \<and>
   total (getUnreadCount uB store0) = 3 \<and>
   byChannel (getUnreadCount uB store0) (js ''random'') = Some (Count 1) \<and>
   byConversation (getUnreadCount uB store0) uC = Some (Count 1) \<and>
   byConversation (getUnreadCount uB store0) uA = None \<and>
   sum_values (byChannel (getUnreadCount uB store0)) +
   sum_values (byConversation (getUnreadCount uB store0)) = 3"
proof -
  have n: "js ''random'' \<noteq> []" by (simp add: js_def)
  have cs: "channel m_chan = Some (js ''random'')" "channel m_react = Some (js ''general'')"
    "channel m_own = None"
    by (simp_all add: m_chan_def m_react_def m_own_def)
  have h: "list_all (\<lambda>m. channel m \<noteq> Some []) (filter (unread_match uB) store0)"
    by (simp add: unread_uB cs) (simp add: js_def)
  have h': "list_all (\<lambda>m. case channel m of None \<Rightarrow> True | Some c \<Rightarrow> c \<noteq> [] \<and> c \<notin> set inherited)
     (filter (unread_match uB) store0)"
    using names_not_inherited by (simp add: unread_uB cs) (simp add: js_def)
  have t: "total (getUnreadCount uB store0) = 3"
    by (simp add: unread_total unread_uB)
  have f: "filter (\<lambda>m. unread_match uB m \<and> channel m = Some (js ''random'')) store0 = [m_chan]"
          "filter (\<lambda>m. unread_match uB m \<and> channel m = None \<and> sender m = uC) store0 = [m_own]"
          "filter (\<lambda>m. unread_match uB m \<and> channel m = None \<and> sender m = uA) store0 = []"
    by (simp_all add: store0_def unread_match_def readers_def m_chan_def m_del_def m_react_def
        m_own_def uA_def uB_def uC_def js_def)
  note th = C8_unread_count[where u = uB and store = store0 and c = "js ''random''"]
  have 1: "byChannel (getUnreadCount uB store0) (js ''random'') = Some (Count 1)"
    using th[where s = uC] n names_not_inherited(1) by (simp add: f)
  have 2: "byConversation (getUnreadCount uB store0) uC = Some (Count 1)"
    using th[where s = uC] h by (simp add: f)
  have 3: "byConversation (getUnreadCount uB store0) uA = None"
    using th[where s = uA] h by (simp add: f)
  have 4: "sum_values (byChannel (getUnreadCount uB store0)) +
           sum_values (byConversation (getUnreadCount uB store0)) = 3"
    using th[where s = uC] h' t by simp
  show ?thesis using n names_not_inherited(1) h h' t 1 2 3 4 by blast
qed

theorem C8_other_channel_counterexample:
  "channel m_chan = Some (js ''random'') \<and>
   total (getUnreadCount uB [m_chan]) = 1 \<and>
   spec_unread_count (\<lambda>v c. c = js ''general'') uB [m_chan] = 0"
  by (simp add: getUnreadCount_def unread_groups_def unread_match_def readers_def
      spec_unread_count_def m_chan_def uA_def uB_def Let_def js_def)

section \<open>Properties of the presence registry\<close>

text \<open>
  C4. A user who has no connection connects from two distinct sockets. After one of the
  two has disconnected the user is online and nothing but the two announcements of
  the connections has been emitted; after the other one has disconnected too the user
  is offline and one offline announcement has been emitted in all.
\<close>

theorem C4_two_connections:
  assumes "onlineUsers s u = None" and "c1 \<noteq> c2"
  shows "isUserOnline (fst (run [Connect u c1, Connect u c2, Disconnect u c1] s)) u \<and>
         snd (run [Connect u c1, Connect u c2, Disconnect u c1] s) =
           [Emit To_all (User_online u True), Emit To_all (User_online u True)] \<and>
         \<not> isUserOnline (fst (run [Connect u c1, Connect u c2, Disconnect u c1, Disconnect u c2] s)) u \<and>
         snd (run [Connect u c1, Connect u c2, Disconnect u c1, Disconnect u c2] s) =
           [Emit To_all (User_online u True), Emit To_all (User_online u True),
            Emit To_all (User_online u False)] \<and>
         isUserOnline (fst (run [Connect u c1, Connect u c2, Disconnect u c2] s)) u \<and>
         snd (run [Connect u c1, Connect u c2, Disconnect u c2] s) =
           [Emit To_all (User_online u True), Emit To_all (User_online u True)] \<and>
         \<not> isUserOnline (fst (run [Connect u c1, Connect u c2, Disconnect u c2, Disconnect u c1] s)) u \<and>
         snd (run [Connect u c1, Connect u c2, Disconnect u c2, Disconnect u c1] s) =
           [Emit To_all (User_online u True), Emit To_all (User_online u True),
            Emit To_all (User_online u False)]"
  using assms
  by (simp add: connection_def disconnect_def Set_add_def Set_delete_def isUserOnline_def Let_def)

theorem C4_two_tabs_witness:
  "onlineUsers init_io uA = None \<and> ''sock-1'' \<noteq> ''sock-2'' \<and>
   isUserOnline
     (fst (run [Connect uA ''sock-1'', Connect uA ''sock-2'', Disconnect uA ''sock-1''] init_io)) uA \<and>
   \<not> isUserOnline (fst (run two_tabs_closed init_io)) uA \<and>
   count_list (snd (run two_tabs_closed init_io)) (Emit To_all (User_online uA False)) = 1"
proof -
  have a: "onlineUsers init_io uA = None" by (simp add: init_io_def)
  have b: "''sock-1'' \<noteq> ''sock-2''" by simp
  have c: "two_tabs_closed = [Connect uA ''sock-1'', Connect uA ''sock-2'',
             Disconnect uA ''sock-1'', Disconnect uA ''sock-2'']"
    by (simp add: two_tabs_closed_def two_tabs_def)
  note th = C4_two_connections[OF a b]
  have 1: "isUserOnline
     (fst (run [Connect uA ''sock-1'', Connect uA ''sock-2'', Disconnect uA ''sock-1''] init_io)) uA"
    using th by blast
  have 2: "\<not> isUserOnline (fst (run two_tabs_closed init_io)) uA"
    unfolding c using th by blast
  have 3: "snd (run two_tabs_closed init_io) =
           [Emit To_all (User_online uA True), Emit To_all (User_online uA True),
            Emit To_all (User_online uA False)]"
    unfolding c using th by blast
  have 4: "count_list (snd (run two_tabs_closed init_io)) (Emit To_all (User_online uA False)) = 1"
    by (simp add: 3)
  show ?thesis using a b 1 2 4 by blast
qed

lemma connection_nonempty: "sets_nonempty s \<Longrightarrow> sets_nonempty (fst (connection u c s))"
  by (auto simp: sets_nonempty_def connection_def Set_add_def Let_def split: if_splits)

lemma disconnect_nonempty: "sets_nonempty s \<Longrightarrow> sets_nonempty (fst (disconnect u c s))"
  by (auto simp: sets_nonempty_def disconnect_def Set_delete_def Let_def split: option.splits if_splits)

lemma handle_nonempty: "sets_nonempty s \<Longrightarrow> sets_nonempty (fst (handle e s))"
  by (cases e) (simp_all add: connection_nonempty disconnect_nonempty)

lemma init_nonempty: "sets_nonempty init_io"
  by (simp add: sets_nonempty_def init_io_def)

lemma run_Cons: "snd (run (e # es) s) = snd (handle e s) @ snd (run es (fst (handle e s)))"
  by (simp split: prod.splits)

lemma handle_online_count:
  "count_list (snd (handle e s)) (Emit To_all (User_online u True)) =
     (if (case e of Connect v c \<Rightarrow> v = u | Disconnect v c \<Rightarrow> False) then 1 else 0)"
  by (cases e) (auto simp: connection_def disconnect_def Let_def split: option.splits)

lemma run_online_count:
  "count_list (snd (run es s)) (Emit To_all (User_online u True)) =
     length (filter (\<lambda>e. case e of Connect v c \<Rightarrow> v = u | Disconnect v c \<Rightarrow> False) es)"
proof (induction es arbitrary: s)
  case Nil
  then show ?case by simp
next
  case (Cons e es)
  show ?case
    by (simp only: run_Cons count_list_append handle_online_count Cons.IH) simp
qed

lemma handle_offline_count:
  "sets_nonempty s \<Longrightarrow>
   count_list (snd (handle e s)) (Emit To_all (User_online u False)) =
     (if isUserOnline s u \<and> \<not> isUserOnline (fst (handle e s)) u then 1 else 0)"
  by (cases e)
    (auto simp: sets_nonempty_def connection_def disconnect_def isUserOnline_def Set_add_def
      Set_delete_def Let_def split: option.splits if_splits)

lemma run_offline_count:
  "sets_nonempty s \<Longrightarrow>
   count_list (snd (run es s)) (Emit To_all (User_online u False)) = went_offline u es s"
proof (induction es arbitrary: s)
  case Nil
  then show ?case by simp
next
  case (Cons e es)
  have "sets_nonempty (fst (handle e s))" using Cons.prems by (rule handle_nonempty)
  then show ?case
    using Cons.prems
    by (simp only: run_Cons count_list_append handle_offline_count Cons.IH went_offline.simps Let_def)
qed

lemma handle_went_online:
  "(if \<not> isUserOnline s u \<and> isUserOnline (fst (handle e s)) u then 1 else 0) \<le>
   count_list (snd (handle e s)) (Emit To_all (User_online u True))"
  by (cases e)
    (auto simp: connection_def disconnect_def isUserOnline_def Set_add_def
      Set_delete_def Let_def split: option.splits if_splits)

lemma run_went_online:
  "went_online u es s \<le> count_list (snd (run es s)) (Emit To_all (User_online u True))"
proof (induction es arbitrary: s)
  case Nil
  then show ?case by simp
next
  case (Cons e es)
  show ?case
    using handle_went_online[of s u e] Cons.IH[of "fst (handle e s)"]
    by (simp only: run_Cons count_list_append went_online.simps Let_def)
qed

lemma handle_targets: "list_all (\<lambda>x. case x of Emit t ev \<Rightarrow> t = To_all) (snd (handle e s))"
  by (cases e) (auto simp: connection_def disconnect_def Let_def split: option.splits)

lemma run_targets: "list_all (\<lambda>x. case x of Emit t ev \<Rightarrow> t = To_all) (snd (run es s))"
proof (induction es arbitrary: s)
  case Nil
  then show ?case by simp
next
  case (Cons e es)
  show ?case
    by (simp only: run_Cons list_all_append handle_targets Cons.IH)
qed

text \<open>
  C5. In every sequence of connections and disconnections from the empty registry,
  every connection emits one broadcast \<open>online = true\<close> of its user, also when the user
  is online already, so that these broadcasts are at least as many as the passages of
  the user from offline to online; a broadcast \<open>online = false\<close> is emitted exactly at
  the passages from online to offline; and each broadcast is sent with \<open>io.emit\<close>, to
  every connected client.
\<close>

theorem C5_presence_broadcasts:
  "count_list (snd (run es init_io)) (Emit To_all (User_online u True)) =
     length (filter (\<lambda>e. case e of Connect v c \<Rightarrow> v = u | Disconnect v c \<Rightarrow> False) es) \<and>
   went_online u es init_io \<le> count_list (snd (run es init_io)) (Emit To_all (User_online u True)) \<and>
   count_list (snd (run es init_io)) (Emit To_all (User_online u False)) = went_offline u es init_io \<and>
   list_all (\<lambda>x. case x of Emit t ev \<Rightarrow> t = To_all) (snd (run es init_io))"
  using run_online_count[of es init_io u] run_went_online[of u es init_io]
    run_offline_count[OF init_nonempty, of es u] run_targets[of es init_io]
  by simp

theorem C5_two_tabs_witness:
  "count_list (snd (run two_tabs_closed init_io)) (Emit To_all (User_online uA True)) = 2 \<and>
   went_online uA two_tabs_closed init_io = 1 \<and>
   count_list (snd (run two_tabs_closed init_io)) (Emit To_all (User_online uA False)) = 1 \<and>
   went_offline uA two_tabs_closed init_io = 1"
proof -
  have c: "two_tabs_closed = [Connect uA ''sock-1'', Connect uA ''sock-2'',
             Disconnect uA ''sock-1'', Disconnect uA ''sock-2'']"
    by (simp add: two_tabs_closed_def two_tabs_def)
  have up: "went_online uA two_tabs_closed init_io = 1"
    unfolding c
    by (simp add: init_io_def connection_def disconnect_def Set_add_def Set_delete_def
        isUserOnline_def Let_def)
  have down: "went_offline uA two_tabs_closed init_io = 1"
    unfolding c
    by (simp add: init_io_def connection_def disconnect_def Set_add_def Set_delete_def
        isUserOnline_def Let_def)
  have n: "length (filter (\<lambda>e. case e of Connect v c \<Rightarrow> v = uA | Disconnect v c \<Rightarrow> False)
             two_tabs_closed) = 2"
    unfolding c by simp
  show ?thesis
    using C5_presence_broadcasts[of two_tabs_closed uA] up down n by simp
qed

theorem C5_second_connection_counterexample:
  "count_list (snd (run two_tabs init_io)) (Emit To_all (User_online uA True)) = 2 \<and>
   went_online uA two_tabs init_io = 1 \<and>
   isUserOnline (fst (connection uA ''sock-1'' init_io)) uA \<and>
   snd (connection uA ''sock-2'' (fst (connection uA ''sock-1'' init_io))) =
     [Emit To_all (User_online uA True)]"
  by (simp add: two_tabs_def init_io_def connection_def Set_add_def isUserOnline_def Let_def)

end
